theory Spec2Isabelle
  imports Complex_Main "HOL-Library.Sublist" "HOL-Library.AList" "HOL-Library.Log_Nat"
begin

section \<open>Values shared by the pipeline\<close>

text \<open>
  A raised Python exception: its class name and what \<^verbatim>\<open>str(e)\<close> gives. Every value of
  this type stands for an instance of \<^verbatim>\<open>Exception\<close>, the class all handlers of the
  modelled code catch (\<^verbatim>\<open>except Exception\<close>).
\<close>

datatype exn = Raised (exn_class: string) (exn_str: string)

text \<open>
  Collaborators hand back parsed JSON (\<^verbatim>\<open>dict[str, Any]\<close>); a dict is an association
  list in insertion order.
\<close>

datatype json =
    JNull
  | JBool bool
  | JInt int
  | JFloat real
  | JStr string
  | JList "json list"
  | JDict "(string \<times> json) list"

fun type_name :: "json \<Rightarrow> string" where
  "type_name JNull = ''NoneType''"
| "type_name (JBool _) = ''bool''"
| "type_name (JInt _) = ''int''"
| "type_name (JFloat _) = ''float''"
| "type_name (JStr _) = ''str''"
| "type_name (JList _) = ''list''"
| "type_name (JDict _) = ''dict''"

text \<open>\<^verbatim>\<open>obj.get(key, default)\<close>: only a dict has the method.\<close>

fun py_get :: "json \<Rightarrow> string \<Rightarrow> json \<Rightarrow> exn + json" where
  "py_get (JDict kvs) key dflt =
     Inr (case map_of kvs key of Some v \<Rightarrow> v | None \<Rightarrow> dflt)"
| "py_get obj key dflt =
     Inl (Raised ''AttributeError''
            ([CHR 0x27] @ type_name obj @ [CHR 0x27] @ '' object has no attribute ''
              @ [CHR 0x27] @ ''get'' @ [CHR 0x27]))"

section \<open>Stages and progress (orchestrator.py)\<close>

datatype ResearchStage =
    QUERY_ANALYSIS
  | WEB_SEARCH
  | REASONING
  | VERIFICATION
  | CITATION
  | OUTPUT_GENERATION
  | COMPLETE

fun stage_value :: "ResearchStage \<Rightarrow> string" where
  "stage_value QUERY_ANALYSIS = ''query_analysis''"
| "stage_value WEB_SEARCH = ''web_search''"
| "stage_value REASONING = ''reasoning''"
| "stage_value VERIFICATION = ''verification''"
| "stage_value CITATION = ''citation''"
| "stage_value OUTPUT_GENERATION = ''output_generation''"
| "stage_value COMPLETE = ''complete''"

text \<open>The members of the enum, in definition order; \<^verbatim>\<open>len(ResearchStage)\<close> is its length.\<close>

definition ResearchStage_members :: "ResearchStage list" where
  "ResearchStage_members =
     [QUERY_ANALYSIS, WEB_SEARCH, REASONING, VERIFICATION, CITATION, OUTPUT_GENERATION, COMPLETE]"

text \<open>
  \<^verbatim>\<open>ResearchProgress\<close>. The wall-clock \<^verbatim>\<open>start_time\<close> is left out: nothing reads it.
  \<^verbatim>\<open>stage_times\<close> is a dict keyed by the stage's value.
\<close>

record ResearchProgress =
  current_stage :: ResearchStage
  stages_completed :: "ResearchStage list"
  stage_times :: "(string \<times> real) list"
  errors :: "string list"

definition complete_stage :: "ResearchStage \<Rightarrow> real \<Rightarrow> ResearchProgress \<Rightarrow> ResearchProgress" where
  "complete_stage stage duration p =
     p\<lparr>stages_completed := stages_completed p @ [stage],
       stage_times := AList.update (stage_value stage) duration (stage_times p)\<rparr>"

definition progress_percentage :: "ResearchProgress \<Rightarrow> real" where
  "progress_percentage p =
     (let total_stages = int (length ResearchStage_members) - 1
      in (real (length (stages_completed p)) / real_of_int total_stages) * 100)"

section \<open>Sessions and results (models.py, orchestrator.py)\<close>

record SearchResult =
  title :: string
  url :: string
  snippet :: string
  domain :: string
  relevance_score :: real

text \<open>\<^verbatim>\<open>Source\<close>, with the fields the orchestrator sets; the others keep their defaults.\<close>

record Source =
  source_id :: string
  url :: string
  title :: string
  content :: string
  domain :: string
  credibility_score :: real

text \<open>
  \<^verbatim>\<open>ResearchResult\<close> without its legacy fields. \<^verbatim>\<open>answer\<close> holds whatever the
  \<^verbatim>\<open>.get\<close> chain that fills it returns, and \<^verbatim>\<open>metadata\<close> is a dict.
\<close>

record ResearchResult =
  query :: string
  answer :: json
  confidence :: real
  sources :: "Source list"
  reasoning_steps :: "json list"
  verification_status :: string
  metadata :: "(string \<times> json) list"

text \<open>
  \<^verbatim>\<open>ResearchSession\<close>. The query analysis object and the reasoning steps are opaque to the
  orchestrator and kept as JSON values; \<^verbatim>\<open>synthesis\<close>, \<^verbatim>\<open>verification\<close> and
  \<^verbatim>\<open>citations\<close> are \<^verbatim>\<open>dict | None\<close>.
\<close>

record ResearchSession =
  session_id :: string
  query :: string
  progress :: ResearchProgress
  query_analysis :: "json option"
  search_results :: "SearchResult list"
  sources :: "Source list"
  reasoning_steps :: "json list"
  synthesis :: "(string \<times> json) list option"
  verification :: "(string \<times> json) list option"
  citations :: "(string \<times> json) list option"
  final_result :: "ResearchResult option"
  metadata :: "(string \<times> json) list"

text \<open>
  The orchestrator's own state: the registry \<^verbatim>\<open>active_sessions\<close> and the counter behind
  the session ids.
\<close>

record Orchestrator =
  active_sessions :: "string \<rightharpoonup> ResearchSession"
  session_counter :: nat

subsection \<open>Running one stage\<close>

text \<open>
  A stage callable is awaited on the session: it may assign to the session's fields, and
  it either returns or raises. \<^verbatim>\<open>_run_stage\<close> ignores the value it returns.
\<close>

type_synonym stage_callable = "ResearchSession \<Rightarrow> exn option \<times> ResearchSession"

text \<open>A progress callback is called with the stage and a percentage; it may raise.\<close>

type_synonym progress_callback = "ResearchStage \<Rightarrow> real \<Rightarrow> exn option"

text \<open>\<^verbatim>\<open>if progress_callback: progress_callback(stage, percentage)\<close>.\<close>

definition notify :: "progress_callback option \<Rightarrow> ResearchStage \<Rightarrow> real \<Rightarrow> exn option" where
  "notify progress_callback stage percentage =
     (case progress_callback of None \<Rightarrow> None | Some cb \<Rightarrow> cb stage percentage)"

text \<open>
  \<^verbatim>\<open>_run_stage\<close>. The result is the outcome (\<open>None\<close> for a normal return, \<open>Some e\<close> when
  \<open>e\<close> leaves the method) and the successive values of the session, in order: after
  \<^verbatim>\<open>current_stage\<close> is assigned, after the callable has run, and after the bookkeeping of
  the branch taken. The last one is the session the caller goes on with. \<open>duration\<close> is
  the elapsed time the clock gives for this stage. The callback is invoked before the
  \<^verbatim>\<open>try\<close>, so what it raises is not recorded.
\<close>

definition run_stage ::
  "progress_callback option \<Rightarrow> stage_callable \<Rightarrow> real \<Rightarrow> ResearchStage \<Rightarrow> ResearchSession
     \<Rightarrow> exn option \<times> ResearchSession list" where
  "run_stage progress_callback stage_func duration stage session =
     (let s1 = session\<lparr>progress := (progress session)\<lparr>current_stage := stage\<rparr>\<rparr> in
      case notify progress_callback stage (progress_percentage (progress s1)) of
        Some e \<Rightarrow> (Some e, [s1])
      | None \<Rightarrow>
         (case stage_func s1 of
            (None, s2) \<Rightarrow>
              (None, [s1, s2, s2\<lparr>progress := complete_stage stage duration (progress s2)\<rparr>])
          | (Some e, s2) \<Rightarrow>
              (Some e,
               [s1, s2,
                s2\<lparr>progress := (progress s2)
                      \<lparr>errors := errors (progress s2) @ [stage_value stage @ '': '' @ exn_str e]\<rparr>\<rparr>])))"

subsection \<open>Confidence\<close>

text \<open>
  A factor taken from a dict is a number or breaks \<^verbatim>\<open>sum(factors)\<close>; \<^verbatim>\<open>bool\<close> is a
  subclass of \<^verbatim>\<open>int\<close>.
\<close>

fun number_of :: "json \<Rightarrow> real option" where
  "number_of (JInt i) = Some (real_of_int i)"
| "number_of (JFloat x) = Some x"
| "number_of (JBool b) = Some (if b then 1 else 0)"
| "number_of _ = None"

text \<open>
  \<^verbatim>\<open>_calculate_confidence\<close>. Floats are read as real numbers. \<^verbatim>\<open>if session.sources\<close> and
  \<^verbatim>\<open>if session.verification\<close> are Python truth tests: a non-empty list, a dict that is
  neither \<^verbatim>\<open>None\<close> nor empty. The source-count factor is appended on every path. The
  message of the \<^verbatim>\<open>TypeError\<close> of \<^verbatim>\<open>sum\<close>, which goes on to name the operand types, is
  cut short.
\<close>

definition calculate_confidence :: "ResearchSession \<Rightarrow> exn + real" where
  "calculate_confidence session =
     (let factors0 =
            (if sources session \<noteq> []
             then [Some (sum_list (map credibility_score (sources session))
                          / real (length (sources session)))]
             else []);
          factors1 =
            (case verification session of
               Some (kv # kvs) \<Rightarrow>
                 factors0 @
                   [number_of (case map_of (kv # kvs) ''overall_confidence'' of
                                 Some v \<Rightarrow> v | None \<Rightarrow> JFloat 0.5)]
             | _ \<Rightarrow> factors0);
          source_score = min (real (length (sources session)) / 10) 1.0;
          factors = factors1 @ [Some source_score];
          error_penalty = real (length (errors (progress session))) * 0.1
      in if factors \<noteq> []
         then (if None \<in> set factors
               then Inl (Raised ''TypeError'' ''unsupported operand type(s) for +'')
               else (let base_confidence = sum_list (map the factors) / real (length factors)
                     in Inr (max 0.0 (min 1.0 (base_confidence - error_penalty)))))
         else Inr 0.5)"

subsection \<open>The degraded-output path\<close>

text \<open>
  What \<^verbatim>\<open>generate_fallback_content\<close> is called with; the prompt sent to the model is a
  function of these four arguments.
\<close>

record fallback_request =
  fb_query :: string
  fb_available_info :: "(string \<times> json) list option"
  fb_failed_sources :: "string list"
  fb_cached_data :: "(string \<times> json) list option"

text \<open>
  \<^verbatim>\<open>ErrorHandler.generate_fallback_content\<close>: the reply of \<^verbatim>\<open>llm_client.call_json\<close> as it
  comes, or the hardcoded dict when that call raises.
\<close>

definition generate_fallback_content ::
  "(fallback_request \<Rightarrow> exn + json) \<Rightarrow> string \<Rightarrow> (string \<times> json) list option \<Rightarrow> string list
     \<Rightarrow> (string \<times> json) list option \<Rightarrow> json" where
  "generate_fallback_content call_json q available_info failed_sources cached_data =
     (case call_json \<lparr>fb_query = q, fb_available_info = available_info,
                       fb_failed_sources = failed_sources, fb_cached_data = cached_data\<rparr> of
        Inr result \<Rightarrow> result
      | Inl e \<Rightarrow>
          JDict [(''fallback_content'',
                    JDict [(''response'', JStr ''Unable to complete the research at this time.''),
                           (''confidence'', JFloat 0.0),
                           (''completeness'', JFloat 0.0)]),
                 (''limitations_disclosure'',
                    JDict [(''what_is_missing'', JList (map JStr failed_sources)),
                           (''quality_impact'', JStr ''significant'')])])"

text \<open>
  \<^verbatim>\<open>_handle_research_failure\<close>. The keyword arguments of \<^verbatim>\<open>ResearchResult(...)\<close> are
  evaluated in order, so a \<^verbatim>\<open>.get\<close> on something that is not a dict raises before any
  result exists.
\<close>

definition handle_research_failure ::
  "(fallback_request \<Rightarrow> exn + json) \<Rightarrow> ResearchSession \<Rightarrow> exn \<Rightarrow> exn + ResearchResult" where
  "handle_research_failure call_json session error =
     (let fallback = generate_fallback_content call_json (ResearchSession.query session)
                       (synthesis session) [exn_str error] None
      in case py_get fallback ''fallback_content'' (JDict []) of
           Inl e \<Rightarrow> Inl e
         | Inr fc \<Rightarrow>
            (case py_get fc ''response'' (JStr ''Research could not be completed.'') of
               Inl e \<Rightarrow> Inl e
             | Inr response \<Rightarrow>
                 Inr \<lparr>ResearchResult.query = ResearchSession.query session,
                      answer = response,
                      confidence = 0.2,
                      sources = ResearchSession.sources session,
                      reasoning_steps = ResearchSession.reasoning_steps session,
                      verification_status = ''failed'',
                      metadata = [(''error'', JStr (exn_str error)),
                                  (''partial'', JBool True),
                                  (''fallback'', fallback)]\<rparr>))"

subsection \<open>Session registry\<close>

text \<open>Decimal rendering of the counter inside the f-string of the session id.\<close>

function str_nat :: "nat \<Rightarrow> string" where
  "str_nat n =
     (if n < 10 then [''0123456789'' ! n]
      else str_nat (n div 10) @ [''0123456789'' ! (n mod 10)])"
  by pat_completeness auto
termination
  by (relation "measure id") auto

declare str_nat.simps [simp del]

text \<open>
  \<^verbatim>\<open>_create_session\<close>; \<open>now\<close> is the clock's \<^verbatim>\<open>strftime('%Y%m%d%H%M%S')\<close>. The registry entry
  is the session object itself.
\<close>

definition create_session :: "string \<Rightarrow> string \<Rightarrow> Orchestrator \<Rightarrow> ResearchSession \<times> Orchestrator" where
  "create_session now q orch =
     (let counter = session_counter orch + 1;
          sid = ''session_'' @ str_nat counter @ ''_'' @ now;
          session = \<lparr>session_id = sid,
                     query = q,
                     progress = \<lparr>current_stage = QUERY_ANALYSIS, stages_completed = [],
                                 stage_times = [], errors = []\<rparr>,
                     query_analysis = None,
                     search_results = [],
                     sources = [],
                     reasoning_steps = [],
                     synthesis = None,
                     verification = None,
                     citations = None,
                     final_result = None,
                     metadata = []\<rparr>
      in (session, orch\<lparr>session_counter := counter,
                        active_sessions := (active_sessions orch)(sid \<mapsto> session)\<rparr>))"

definition cleanup_session :: "string \<Rightarrow> Orchestrator \<Rightarrow> Orchestrator" where
  "cleanup_session sid orch =
     (if sid \<in> dom (active_sessions orch)
      then orch\<lparr>active_sessions := (active_sessions orch)(sid := None)\<rparr>
      else orch)"

subsection \<open>The research run\<close>

text \<open>
  What a run depends on outside \<^verbatim>\<open>research\<close> and \<^verbatim>\<open>_run_stage\<close>. The six stage
  callables are the orchestrator's attributes \<^verbatim>\<open>_analyze_query\<close>, \<^verbatim>\<open>_search_web\<close>,
  \<^verbatim>\<open>_reason\<close>, \<^verbatim>\<open>_verify\<close>, \<^verbatim>\<open>_generate_citations\<close> and \<^verbatim>\<open>_generate_output\<close>, looked
  up when \<^verbatim>\<open>research\<close> runs; they delegate to the model and search collaborators, and
  what awaiting each of them does to the session is given here. (\<^verbatim>\<open>research\<close> passes its
  \<^verbatim>\<open>progress_callback\<close> positionally, so each callable is called with one argument more
  than the stage methods of the class declare; bound to those methods unchanged, the call
  raises \<^verbatim>\<open>TypeError\<close>, which is one of the outcomes a callable has here; the statements
  below are about whatever the attributes are bound to.) \<open>elapsed\<close> is the duration
  the clock measures for a stage, \<open>call_json\<close> the error handler's model call, \<open>now\<close> the
  formatted time at session creation.
\<close>

record Environment =
  analyze_query :: stage_callable
  search_web :: stage_callable
  reason :: stage_callable
  verify :: stage_callable
  generate_citations :: stage_callable
  generate_output :: stage_callable
  elapsed :: "ResearchStage \<Rightarrow> real"
  call_json :: "fallback_request \<Rightarrow> exn + json"
  now :: string

text \<open>
  Statements in sequence inside a \<^verbatim>\<open>try\<close>: the next one runs on the session the previous
  one left, unless that one raised.
\<close>

definition and_then ::
  "exn option \<times> ResearchSession list \<Rightarrow> (ResearchSession \<Rightarrow> exn option \<times> ResearchSession list)
     \<Rightarrow> exn option \<times> ResearchSession list" where
  "and_then r k =
     (case r of
        (Some e, states) \<Rightarrow> (Some e, states)
      | (None, states) \<Rightarrow> (case k (last states) of (r', states') \<Rightarrow> (r', states @ states')))"

text \<open>
  The six \<^verbatim>\<open>_run_stage\<close> calls of the \<^verbatim>\<open>try\<close> block. \<^verbatim>\<open>research\<close> hands its
  \<^verbatim>\<open>progress_callback\<close> over positionally, so it travels on to the stage callable with the
  other arguments and \<^verbatim>\<open>kwargs.pop('progress_callback', None)\<close> finds nothing:
  \<^verbatim>\<open>_run_stage\<close> runs without a callback here.
\<close>

definition run_stages :: "Environment \<Rightarrow> bool \<Rightarrow> ResearchSession \<Rightarrow> exn option \<times> ResearchSession list" where
  "run_stages env verify_claims session =
     and_then
      (and_then
        (and_then
          (and_then
            (and_then
              (run_stage None (analyze_query env) (elapsed env QUERY_ANALYSIS) QUERY_ANALYSIS session)
              (run_stage None (search_web env) (elapsed env WEB_SEARCH) WEB_SEARCH))
            (run_stage None (reason env) (elapsed env REASONING) REASONING))
          (if verify_claims
           then run_stage None (verify env) (elapsed env VERIFICATION) VERIFICATION
           else (\<lambda>s. (None, []))))
        (run_stage None (generate_citations env) (elapsed env CITATION) CITATION))
      (run_stage None (generate_output env) (elapsed env OUTPUT_GENERATION) OUTPUT_GENERATION)"

text \<open>
  \<^verbatim>\<open>research\<close>: create the session, run the \<^verbatim>\<open>try\<close> block, mark the run complete and
  return \<^verbatim>\<open>session.final_result\<close>; on any exception build the partial result instead;
  in every case clean the session up. The result is what the caller gets (\<open>Inl e\<close> when
  \<open>e\<close> propagates), the orchestrator afterwards, and every value the session went through,
  starting with the freshly created one.
\<close>

definition research ::
  "Environment \<Rightarrow> Orchestrator \<Rightarrow> string \<Rightarrow> bool \<Rightarrow> progress_callback option
     \<Rightarrow> (exn + ResearchResult option) \<times> Orchestrator \<times> ResearchSession list" where
  "research env orch q verify_claims progress_callback =
     (case create_session (now env) q orch of
        (session, orch1) \<Rightarrow>
          (let tried =
                 and_then (run_stages env verify_claims session)
                   (\<lambda>s. let s' = s\<lparr>progress := (progress s)\<lparr>current_stage := COMPLETE\<rparr>\<rparr>
                        in (notify progress_callback COMPLETE 100.0, [s']));
               final = last (session # snd tried);
               outcome =
                 (case fst tried of
                    None \<Rightarrow> Inr (final_result final)
                  | Some e \<Rightarrow>
                      (case handle_research_failure (call_json env) final e of
                         Inl e' \<Rightarrow> Inl e'
                       | Inr partial_result \<Rightarrow> Inr (Some partial_result)))
           in (outcome, cleanup_session (session_id final) orch1, session # snd tried)))"

subsection \<open>De-duplication of search results\<close>

text \<open>
  The loop of \<^verbatim>\<open>_search_web\<close> that fills \<^verbatim>\<open>unique_results\<close>, with its two accumulators
  \<^verbatim>\<open>seen_urls\<close> and \<^verbatim>\<open>unique_results\<close>.
\<close>

fun dedup_loop :: "SearchResult list \<Rightarrow> string set \<Rightarrow> SearchResult list \<Rightarrow> SearchResult list" where
  "dedup_loop [] seen_urls unique_results = unique_results"
| "dedup_loop (result # rest) seen_urls unique_results =
     (if SearchResult.url result \<notin> seen_urls
      then dedup_loop rest (insert (SearchResult.url result) seen_urls) (unique_results @ [result])
      else dedup_loop rest seen_urls unique_results)"

definition deduplicate_by_url :: "SearchResult list \<Rightarrow> SearchResult list" where
  "deduplicate_by_url all_results = dedup_loop all_results {} []"

text \<open>
  The claim in its own words: the positions of \<open>all_results\<close> whose url occurs at no
  earlier position, in increasing order.
\<close>

definition first_occurrences :: "SearchResult list \<Rightarrow> nat list" where
  "first_occurrences all_results =
     filter (\<lambda>i. \<forall>j<i. SearchResult.url (all_results ! j) \<noteq> SearchResult.url (all_results ! i))
       [0..<length all_results]"

section \<open>The model client with fallback (llm_client.py)\<close>

record GenerateArgs =
  prompt :: string
  system_prompt :: "string option"
  temperature :: "real option"
  max_tokens :: "int option"
  json_mode :: bool

text \<open>
  A backend (\<^verbatim>\<open>BaseLLMClient\<close>) over its own state \<open>'s\<close>: each call returns or raises and
  leaves the backend in a new state, so that a backend may fail once and answer later.
\<close>

record 's Backend =
  backend_generate :: "'s \<Rightarrow> GenerateArgs \<Rightarrow> (exn + string) \<times> 's"
  backend_generate_json :: "'s \<Rightarrow> string \<Rightarrow> string option \<Rightarrow> real option \<Rightarrow> (exn + json) \<times> 's"

record ('p, 'f) LLMClient =
  primary :: 'p
  fallback :: 'f
  use_fallback :: bool

text \<open>\<^verbatim>\<open>LLMClient.__init__\<close>, given the two freshly built backends.\<close>

definition LLMClient_init :: "'p \<Rightarrow> 'f \<Rightarrow> ('p, 'f) LLMClient" where
  "LLMClient_init p f = \<lparr>primary = p, fallback = f, use_fallback = False\<rparr>"

text \<open>
  \<^verbatim>\<open>LLMClient.generate\<close>. With the flag set, what the fallback raises goes to the caller
  (the bare \<^verbatim>\<open>raise\<close>); with the flag clear, a failure of the primary sets the flag and
  the method calls itself with the same arguments.
\<close>

function generate ::
  "'p Backend \<Rightarrow> 'f Backend \<Rightarrow> ('p, 'f) LLMClient \<Rightarrow> GenerateArgs
     \<Rightarrow> (exn + string) \<times> ('p, 'f) LLMClient" where
  "generate P F c args =
     (if use_fallback c
      then (case backend_generate F (fallback c) args of
              (r, fs) \<Rightarrow> (r, c\<lparr>fallback := fs\<rparr>))
      else (case backend_generate P (primary c) args of
              (Inr text, ps) \<Rightarrow> (Inr text, c\<lparr>primary := ps\<rparr>)
            | (Inl e, ps) \<Rightarrow> generate P F (c\<lparr>primary := ps, use_fallback := True\<rparr>) args))"
  by pat_completeness auto
termination
  by (relation "measure (\<lambda>(P, F, c, args). if use_fallback c then 0 else 1)") auto

declare generate.simps [simp del]

text \<open>\<^verbatim>\<open>LLMClient.generate_json\<close>, built the same way on the backends' JSON call.\<close>

function generate_json ::
  "'p Backend \<Rightarrow> 'f Backend \<Rightarrow> ('p, 'f) LLMClient \<Rightarrow> string \<Rightarrow> string option \<Rightarrow> real option
     \<Rightarrow> (exn + json) \<times> ('p, 'f) LLMClient" where
  "generate_json P F c prompt_arg system_prompt_arg temperature_arg =
     (if use_fallback c
      then (case backend_generate_json F (fallback c) prompt_arg system_prompt_arg temperature_arg of
              (r, fs) \<Rightarrow> (r, c\<lparr>fallback := fs\<rparr>))
      else (case backend_generate_json P (primary c) prompt_arg system_prompt_arg temperature_arg of
              (Inr obj, ps) \<Rightarrow> (Inr obj, c\<lparr>primary := ps\<rparr>)
            | (Inl e, ps) \<Rightarrow>
                generate_json P F (c\<lparr>primary := ps, use_fallback := True\<rparr>)
                  prompt_arg system_prompt_arg temperature_arg))"
  by pat_completeness auto
termination
  by (relation "measure (\<lambda>(P, F, c, rest). if use_fallback c then 0 else 1)") auto

declare generate_json.simps [simp del]

text \<open>A call made through the client: either method with its arguments.\<close>

datatype llm_call =
    Generate GenerateArgs
  | GenerateJson string "string option" "real option"

datatype llm_reply = Text "exn + string" | Object "exn + json"

fun issue :: "'p Backend \<Rightarrow> 'f Backend \<Rightarrow> ('p, 'f) LLMClient \<Rightarrow> llm_call \<Rightarrow> llm_reply \<times> ('p, 'f) LLMClient" where
  "issue P F c (Generate args) = (case generate P F c args of (r, c') \<Rightarrow> (Text r, c'))"
| "issue P F c (GenerateJson p sp t) = (case generate_json P F c p sp t of (r, c') \<Rightarrow> (Object r, c'))"

text \<open>The same call sent straight to the fallback backend in state \<open>fs\<close>.\<close>

fun issue_to_backend :: "'f Backend \<Rightarrow> 'f \<Rightarrow> llm_call \<Rightarrow> llm_reply \<times> 'f" where
  "issue_to_backend F fs (Generate args) = (case backend_generate F fs args of (r, fs') \<Rightarrow> (Text r, fs'))"
| "issue_to_backend F fs (GenerateJson p sp t) =
     (case backend_generate_json F fs p sp t of (r, fs') \<Rightarrow> (Object r, fs'))"

text \<open>Calls made one after the other on the same client instance.\<close>

fun issue_all :: "'p Backend \<Rightarrow> 'f Backend \<Rightarrow> ('p, 'f) LLMClient \<Rightarrow> llm_call list
    \<Rightarrow> llm_reply list \<times> ('p, 'f) LLMClient" where
  "issue_all P F c [] = ([], c)"
| "issue_all P F c (call # calls) =
     (case issue P F c call of
        (r, c') \<Rightarrow> (case issue_all P F c' calls of (rs, c'') \<Rightarrow> (r # rs, c'')))"

fun issue_all_to_backend :: "'f Backend \<Rightarrow> 'f \<Rightarrow> llm_call list \<Rightarrow> llm_reply list \<times> 'f" where
  "issue_all_to_backend F fs [] = ([], fs)"
| "issue_all_to_backend F fs (call # calls) =
     (case issue_to_backend F fs call of
        (r, fs') \<Rightarrow> (case issue_all_to_backend F fs' calls of (rs, fs'') \<Rightarrow> (r # rs, fs'')))"

section \<open>Search provider fallback (modules/web\_search.py)\<close>

text \<open>
  A search provider over its own state: \<^verbatim>\<open>search(query, max_results)\<close> returns a list of
  result dicts or raises.
\<close>

type_synonym 's provider = "'s \<Rightarrow> string \<Rightarrow> int \<Rightarrow> (exn + json list) \<times> 's"

record ('p, 'f) WebSearch =
  primary_provider :: 'p
  fallback_provider :: 'f
  use_fallback :: bool

text \<open>
  \<^verbatim>\<open>WebSearch._execute_search\<close>. The second query of the empty-result branch sits inside
  the same \<^verbatim>\<open>try\<close>; by then the flag is set, so the handler logs and returns \<^verbatim>\<open>[]\<close>.
  The method itself never raises.
\<close>

function execute_search ::
  "'p provider \<Rightarrow> 'f provider \<Rightarrow> ('p, 'f) WebSearch \<Rightarrow> string \<Rightarrow> int
     \<Rightarrow> json list \<times> ('p, 'f) WebSearch" where
  "execute_search P F w q max_results =
     (if WebSearch.use_fallback w
      then (case F (fallback_provider w) q max_results of
              (Inr results, fs) \<Rightarrow> (results, w\<lparr>fallback_provider := fs\<rparr>)
            | (Inl e, fs) \<Rightarrow> ([], w\<lparr>fallback_provider := fs\<rparr>))
      else (case P (primary_provider w) q max_results of
              (Inr results, ps) \<Rightarrow>
                (if results = []
                 then (let w1 = w\<lparr>primary_provider := ps, WebSearch.use_fallback := True\<rparr>
                       in case F (fallback_provider w1) q max_results of
                            (Inr results', fs) \<Rightarrow> (results', w1\<lparr>fallback_provider := fs\<rparr>)
                          | (Inl e, fs) \<Rightarrow> ([], w1\<lparr>fallback_provider := fs\<rparr>))
                 else (results, w\<lparr>primary_provider := ps\<rparr>))
            | (Inl e, ps) \<Rightarrow>
                execute_search P F (w\<lparr>primary_provider := ps, WebSearch.use_fallback := True\<rparr>)
                  q max_results))"
  by pat_completeness auto
termination
  by (relation "measure (\<lambda>(P, F, w, rest). if WebSearch.use_fallback w then 0 else 1)") auto

declare execute_search.simps [simp del]

section \<open>Retry with backoff (modules/error\_handling.py)\<close>

text \<open>
  What a call of \<^verbatim>\<open>retry_with_backoff\<close> leaves behind: its outcome, the state of the
  function's world, the outcome of every invocation of \<^verbatim>\<open>func\<close> in order, and the
  argument of every \<^verbatim>\<open>asyncio.sleep\<close> in order. \<open>'d\<close> is the type of the delays.
\<close>

record ('a, 's, 'd) retry_run =
  outcome :: "exn + 'a"
  world :: 's
  invocations :: "(exn + 'a) list"
  sleeps :: "'d list"

text \<open>
  The \<^verbatim>\<open>for attempt in range(1, max_attempts + 1)\<close> loop, entered at \<open>attempt\<close> with
  the invocations and sleeps made so far, and the \<^verbatim>\<open>raise last_exception\<close> after it;
  raising \<^verbatim>\<open>None\<close> is a \<^verbatim>\<open>TypeError\<close>. \<open>multiply\<close> is the product that
  \<^verbatim>\<open>delay *= backoff_factor\<close> computes on the delays' type: the rounded binary64 product
  for Python floats (the defaults 1.0 and 2.0 are floats), the exact product for ints.
\<close>

function retry_loop ::
  "('d \<Rightarrow> 'd \<Rightarrow> 'd) \<Rightarrow> ('s \<Rightarrow> (exn + 'a) \<times> 's) \<Rightarrow> int \<Rightarrow> 'd \<Rightarrow> int \<Rightarrow> 'd \<Rightarrow> exn option
     \<Rightarrow> 's \<Rightarrow> (exn + 'a) list \<Rightarrow> 'd list \<Rightarrow> ('a, 's, 'd) retry_run" where
  "retry_loop multiply func max_attempts backoff_factor attempt delay last_exception st calls slept =
     (if attempt > max_attempts
      then \<lparr>outcome =
              (case last_exception of
                 Some e \<Rightarrow> Inl e
               | None \<Rightarrow> Inl (Raised ''TypeError'' ''exceptions must derive from BaseException'')),
            world = st, invocations = calls, sleeps = slept\<rparr>
      else (case func st of
              (Inr v, st') \<Rightarrow>
                \<lparr>outcome = Inr v, world = st', invocations = calls @ [Inr v], sleeps = slept\<rparr>
            | (Inl e, st') \<Rightarrow>
                (if attempt < max_attempts
                 then retry_loop multiply func max_attempts backoff_factor (attempt + 1)
                        (multiply delay backoff_factor) (Some e) st' (calls @ [Inl e]) (slept @ [delay])
                 else retry_loop multiply func max_attempts backoff_factor (attempt + 1) delay (Some e)
                        st' (calls @ [Inl e]) slept)))"
  by pat_completeness auto
termination
  by (relation "measure (\<lambda>(multiply, func, max_attempts, bf, attempt, rest). nat (max_attempts + 1 - attempt))")
    auto

declare retry_loop.simps [simp del]

definition retry_with_backoff ::
  "('d \<Rightarrow> 'd \<Rightarrow> 'd) \<Rightarrow> ('s \<Rightarrow> (exn + 'a) \<times> 's) \<Rightarrow> int \<Rightarrow> 'd \<Rightarrow> 'd \<Rightarrow> 's
     \<Rightarrow> ('a, 's, 'd) retry_run" where
  "retry_with_backoff multiply func max_attempts initial_delay backoff_factor st =
     retry_loop multiply func max_attempts backoff_factor 1 initial_delay None st [] []"

text \<open>The outcomes of \<open>n\<close> successive invocations of \<open>func\<close> starting in state \<open>st\<close>.\<close>

fun invoke_n :: "('s \<Rightarrow> (exn + 'a) \<times> 's) \<Rightarrow> 's \<Rightarrow> nat \<Rightarrow> (exn + 'a) list \<times> 's" where
  "invoke_n func st 0 = ([], st)"
| "invoke_n func st (Suc n) =
     (case func st of (r, st') \<Rightarrow> (case invoke_n func st' n of (rs, st'') \<Rightarrow> (r # rs, st'')))"

subsection \<open>Python floats\<close>

text \<open>
  A finite Python float is a binary64 number, here the rational it denotes. \<open>exponent_of x\<close>
  is the \<open>e\<close> with \<open>2 ^ e \<le> x < 2 ^ (e + 1)\<close> for positive \<open>x\<close>, found from the bit lengths of
  numerator and denominator. \<open>binary64 x\<close> rounds \<open>x\<close> to 53 significant bits, to nearest
  with ties to even, which is what a float literal and every float operation do to their
  exact result. Results outside the normal range (overflow, subnormal numbers) are not
  modelled.
\<close>

definition exponent_of :: "rat \<Rightarrow> int" where
  "exponent_of x =
     (case quotient_of x of
        (a, b) \<Rightarrow> (let e0 = bitlen a - bitlen b in if 2 powi e0 \<le> x then e0 else e0 - 1))"

definition round_half_even :: "rat \<Rightarrow> int" where
  "round_half_even x =
     (let f = \<lfloor>x\<rfloor>; d = x - of_int f
      in if d < 1 / 2 then f else if 1 / 2 < d then f + 1 else if even f then f else f + 1)"

definition binary64 :: "rat \<Rightarrow> rat" where
  "binary64 x =
     (if x = 0 then 0
      else (let e = exponent_of \<bar>x\<bar>; ulp = 2 powi (e - 52)
            in sgn x * of_int (round_half_even (\<bar>x\<bar> / ulp)) * ulp))"

definition binary64_mul :: "rat \<Rightarrow> rat \<Rightarrow> rat" where
  "binary64_mul a b = binary64 (a * b)"

section \<open>Notions used in the statements\<close>

text \<open>
  A stage callable that assigns neither to \<^verbatim>\<open>session.session_id\<close> nor to
  \<^verbatim>\<open>session.progress\<close>. The six stage methods of the orchestrator are of this kind: they
  assign to \<^verbatim>\<open>query_analysis\<close>, \<^verbatim>\<open>search_results\<close>, \<^verbatim>\<open>sources\<close>, \<^verbatim>\<open>reasoning_steps\<close>,
  \<^verbatim>\<open>synthesis\<close>, \<^verbatim>\<open>verification\<close>, \<^verbatim>\<open>citations\<close> and \<^verbatim>\<open>final_result\<close> only.
\<close>

definition keeps_bookkeeping :: "stage_callable \<Rightarrow> bool" where
  "keeps_bookkeeping f \<longleftrightarrow>
     (\<forall>s. session_id (snd (f s)) = session_id s \<and> progress (snd (f s)) = progress s)"

definition stage_methods_keep_bookkeeping :: "Environment \<Rightarrow> bool" where
  "stage_methods_keep_bookkeeping env \<longleftrightarrow>
     keeps_bookkeeping (analyze_query env) \<and> keeps_bookkeeping (search_web env)
     \<and> keeps_bookkeeping (reason env) \<and> keeps_bookkeeping (verify env)
     \<and> keeps_bookkeeping (generate_citations env) \<and> keeps_bookkeeping (generate_output env)"

text \<open>The canonical stage order: every member of the enum but \<^verbatim>\<open>COMPLETE\<close>.\<close>

definition canonical_order :: "ResearchStage list" where
  "canonical_order = butlast ResearchStage_members"

text \<open>The stages a run goes through: the canonical order, without verification when it is disabled.\<close>

definition stage_plan :: "bool \<Rightarrow> ResearchStage list" where
  "stage_plan verify_claims =
     (if verify_claims then canonical_order else remove1 VERIFICATION canonical_order)"

text \<open>
  The \<^verbatim>\<open>_run_stage\<close> calls of a run as a list of stage, callable and duration, and the
  same sequencing written as a recursion over that list; \<open>run_stages\<close> is shown equal to
  it below, and the invariants of a run are proved by induction over the list.
\<close>

definition stage_items :: "Environment \<Rightarrow> bool \<Rightarrow> (ResearchStage \<times> stage_callable \<times> real) list" where
  "stage_items env verify_claims =
     [(QUERY_ANALYSIS, analyze_query env, elapsed env QUERY_ANALYSIS),
      (WEB_SEARCH, search_web env, elapsed env WEB_SEARCH),
      (REASONING, reason env, elapsed env REASONING)]
     @ (if verify_claims then [(VERIFICATION, verify env, elapsed env VERIFICATION)] else [])
     @ [(CITATION, generate_citations env, elapsed env CITATION),
        (OUTPUT_GENERATION, generate_output env, elapsed env OUTPUT_GENERATION)]"

fun run_list ::
  "(ResearchStage \<times> stage_callable \<times> real) list \<Rightarrow> ResearchSession
     \<Rightarrow> exn option \<times> ResearchSession list" where
  "run_list [] s = (None, [])"
| "run_list ((stage, stage_func, duration) # rest) s =
     (case run_stage None stage_func duration stage s of
        (Some e, states) \<Rightarrow> (Some e, states)
      | (None, states) \<Rightarrow>
          (case run_list rest (last (s # states)) of (r, states') \<Rightarrow> (r, states @ states')))"



text \<open>Whether a reply is a raised exception.\<close>

fun raised :: "llm_reply \<Rightarrow> bool" where
  "raised (Text r) = isl r"
| "raised (Object r) = isl r"

text \<open>
  A reply of \<^verbatim>\<open>call_json\<close> on which the \<^verbatim>\<open>.get\<close> chain of \<^verbatim>\<open>_handle_research_failure\<close>
  goes through: the call raised (the hardcoded dict is used), or it returned a dict whose
  \<^verbatim>\<open>"fallback_content"\<close> entry is absent or a dict.
\<close>

fun usable_reply :: "exn + json \<Rightarrow> bool" where
  "usable_reply (Inl e) = True"
| "usable_reply (Inr (JDict kvs)) =
     (case map_of kvs ''fallback_content'' of
        None \<Rightarrow> True
      | Some (JDict fc) \<Rightarrow> True
      | Some other \<Rightarrow> False)"
| "usable_reply (Inr other) = False"

section \<open>Example inputs\<close>

definition empty_orchestrator :: Orchestrator where
  "empty_orchestrator = \<lparr>active_sessions = Map.empty, session_counter = 0\<rparr>"

definition example_session :: ResearchSession where
  "example_session = fst (create_session ''20240101120000'' ''what is rust'' empty_orchestrator)"

definition succeeds :: stage_callable where
  "succeeds s = (None, s)"

definition fails_with :: "exn \<Rightarrow> stage_callable" where
  "fails_with e s = (Some e, s)"

definition result_A :: SearchResult where
  "result_A = \<lparr>SearchResult.title = ''A'', SearchResult.url = ''https://u1.example'', snippet = ''first'',
                SearchResult.domain = ''u1.example'', relevance_score = 0.5\<rparr>"

definition result_B :: SearchResult where
  "result_B = \<lparr>SearchResult.title = ''B'', SearchResult.url = ''https://u2.example'', snippet = ''second'',
                SearchResult.domain = ''u2.example'', relevance_score = 0.5\<rparr>"

definition result_C :: SearchResult where
  "result_C = \<lparr>SearchResult.title = ''C'', SearchResult.url = ''https://u1.example'', snippet = ''third'',
                SearchResult.domain = ''u1.example'', relevance_score = 0.5\<rparr>"

definition failing_backend :: "nat Backend" where
  "failing_backend =
     \<lparr>backend_generate = (\<lambda>n args. (Inl (Raised ''APIError'' ''backend down''), Suc n)),
      backend_generate_json = (\<lambda>n p sp t. (Inl (Raised ''APIError'' ''backend down''), Suc n))\<rparr>"

definition answering_backend :: "nat Backend" where
  "answering_backend =
     \<lparr>backend_generate = (\<lambda>n args. (Inr ''an answer'', Suc n)),
      backend_generate_json = (\<lambda>n p sp t. (Inr (JDict [(''ok'', JBool True)]), Suc n))\<rparr>"

definition example_args :: GenerateArgs where
  "example_args = \<lparr>prompt = ''hello'', system_prompt = None, temperature = None,
                    max_tokens = None, json_mode = False\<rparr>"

definition empty_provider :: "nat provider" where
  "empty_provider n q max_results = (Inr [], Suc n)"

definition raising_provider :: "nat provider" where
  "raising_provider n q max_results = (Inl (Raised ''HTTPError'' ''503''), Suc n)"

definition one_hit_provider :: "nat provider" where
  "one_hit_provider n q max_results =
     (Inr [JDict [(''url'', JStr ''https://u1.example''), (''title'', JStr q)]], Suc n)"

definition third_time_lucky :: "nat \<Rightarrow> (exn + string) \<times> nat" where
  "third_time_lucky n =
     (if n < 2 then Inl (Raised ''TimeoutError'' (''attempt '' @ str_nat (Suc n))) else Inr ''done'',
      Suc n)"

definition never_answers :: "nat \<Rightarrow> (exn + string) \<times> nat" where
  "never_answers n = (Inl (Raised ''TimeoutError'' ''timed out''), Suc n)"

definition all_succeed :: Environment where
  "all_succeed =
     \<lparr>analyze_query = succeeds, search_web = succeeds, reason = succeeds, verify = succeeds,
      generate_citations = succeeds, generate_output = succeeds,
      elapsed = (\<lambda>stage. 1),
      call_json = (\<lambda>request. Inl (Raised ''LLMError'' ''model unavailable'')),
      now = ''20240101120000''\<rparr>"

definition search_fails :: Environment where
  "search_fails = all_succeed\<lparr>search_web := fails_with (Raised ''SearchError'' ''no network'')\<rparr>"

definition malformed_reply :: Environment where
  "malformed_reply =
     search_fails\<lparr>call_json := (\<lambda>request. Inr (JDict [(''fallback_content'', JStr ''n/a'')]))\<rparr>"

section \<open>The stage wrapper\<close>

text \<open>
  C9. Whenever the stage callable raises \<open>e\<close> (the progress callback, if any, having
  returned), \<^verbatim>\<open>_run_stage\<close> raises that same \<open>e\<close>, leaves the session as the callable left
  it except that \<^verbatim>\<open>"{stage.value}: {str(e)}"\<close> is appended to \<^verbatim>\<open>progress.errors\<close>, and
  adds nothing to \<^verbatim>\<open>stages_completed\<close>.
\<close>

theorem run_stage_records_and_reraises:
  assumes "notify progress_callback stage (progress_percentage (progress session)) = None"
      and "stage_func (session\<lparr>progress := (progress session)\<lparr>current_stage := stage\<rparr>\<rparr>) = (Some e, s2)"
  shows "fst (run_stage progress_callback stage_func duration stage session) = Some e
       \<and> last (snd (run_stage progress_callback stage_func duration stage session))
           = s2\<lparr>progress := (progress s2)
                  \<lparr>errors := errors (progress s2) @ [stage_value stage @ '': '' @ exn_str e]\<rparr>\<rparr>
       \<and> stages_completed
            (progress (last (snd (run_stage progress_callback stage_func duration stage session))))
           = stages_completed (progress s2)"
  using assms by (simp add: run_stage_def Let_def progress_percentage_def)

theorem run_stage_records_and_reraises_witness:
  "fst (run_stage None (fails_with (Raised ''SearchError'' ''no network'')) 2 WEB_SEARCH
          example_session)
     = Some (Raised ''SearchError'' ''no network'')
   \<and> errors (progress (last (snd (run_stage None (fails_with (Raised ''SearchError'' ''no network''))
                                    2 WEB_SEARCH example_session))))
     = [''web_search: no network'']
   \<and> stages_completed
        (progress (last (snd (run_stage None (fails_with (Raised ''SearchError'' ''no network''))
                                2 WEB_SEARCH example_session))))
     = []"
  using run_stage_records_and_reraises
          [of None WEB_SEARCH example_session "fails_with (Raised ''SearchError'' ''no network'')"
              "Raised ''SearchError'' ''no network''"
              "example_session\<lparr>progress := (progress example_session)\<lparr>current_stage := WEB_SEARCH\<rparr>\<rparr>"
              2]
  by (simp add: notify_def fails_with_def example_session_def create_session_def
        empty_orchestrator_def Let_def)

section \<open>Confidence of an empty session\<close>

text \<open>
  C2. On a session with no sources, no verification result and no recorded error (a
  freshly created one), \<^verbatim>\<open>_calculate_confidence\<close> returns 0.0: the source-count factor
  \<^verbatim>\<open>min(0 / 10, 1.0)\<close> is always in \<^verbatim>\<open>factors\<close>, so the final \<^verbatim>\<open>return 0.5\<close> is never
  reached.
\<close>

theorem calculate_confidence_empty_session:
  "calculate_confidence (fst (create_session t q orch)) = Inr 0
   \<and> calculate_confidence (fst (create_session t q orch)) \<noteq> Inr 0.5"
  by (simp add: calculate_confidence_def create_session_def Let_def)

section \<open>De-duplication keeps first occurrences in place\<close>

lemma upt_Suc_shift: "[0..<Suc n] = 0 # map Suc [0..<n]"
  by (simp add: upt_conv_Cons map_Suc_upt del: upt_Suc)

lemma map_nth_filter_Cons:
  "map (\<lambda>i. (x # xs) ! i) (filter P [0..<length (x # xs)])
     = (if P 0 then [x] else []) @ map (\<lambda>i. xs ! i) (filter (\<lambda>i. P (Suc i)) [0..<length xs])"
  by (simp add: upt_Suc_shift filter_map comp_def del: upt_Suc)

text \<open>
  The loop, from any state of its accumulators: it appends the results at the positions
  whose url is neither in \<open>seen\<close> nor at an earlier position.
\<close>

lemma dedup_loop_positions:
  "dedup_loop xs seen acc =
     acc @ map (\<lambda>i. xs ! i)
             (filter (\<lambda>i. SearchResult.url (xs ! i) \<notin> seen
                          \<and> (\<forall>j<i. SearchResult.url (xs ! j) \<noteq> SearchResult.url (xs ! i)))
                [0..<length xs])"
proof (induction xs arbitrary: seen acc)
  case Nil
  then show ?case by simp
next
  case (Cons x rest)
  show ?case
  proof (cases "SearchResult.url x \<in> seen")
    case True
    have "filter (\<lambda>i. SearchResult.url (rest ! i) \<notin> seen
                     \<and> SearchResult.url x \<noteq> SearchResult.url (rest ! i)
                     \<and> (\<forall>j<i. SearchResult.url (rest ! j) \<noteq> SearchResult.url (rest ! i)))
            [0..<length rest]
        = filter (\<lambda>i. SearchResult.url (rest ! i) \<notin> seen
                     \<and> (\<forall>j<i. SearchResult.url (rest ! j) \<noteq> SearchResult.url (rest ! i)))
            [0..<length rest]"
      using True by (intro filter_cong) auto
    with True show ?thesis
      by (subst map_nth_filter_Cons) (simp add: Cons.IH All_less_Suc2)
  next
    case False
    have "filter (\<lambda>i. SearchResult.url (rest ! i) \<notin> seen
                     \<and> SearchResult.url x \<noteq> SearchResult.url (rest ! i)
                     \<and> (\<forall>j<i. SearchResult.url (rest ! j) \<noteq> SearchResult.url (rest ! i)))
            [0..<length rest]
        = filter (\<lambda>i. SearchResult.url (rest ! i) \<noteq> SearchResult.url x
                     \<and> SearchResult.url (rest ! i) \<notin> seen
                     \<and> (\<forall>j<i. SearchResult.url (rest ! j) \<noteq> SearchResult.url (rest ! i)))
            [0..<length rest]"
      by (intro filter_cong) auto
    with False show ?thesis
      by (subst map_nth_filter_Cons) (simp add: Cons.IH All_less_Suc2)
  qed
qed

lemma first_occurrences_ABC: "first_occurrences [result_A, result_B, result_C] = [0, 1]"
  by (simp add: first_occurrences_def result_A_def result_B_def result_C_def upt_conv_Cons
        numeral_3_eq_3 All_less_Suc2)

text \<open>
  C7. De-duplication by url returns exactly the results at the positions where a url
  occurs for the first time, in their original order; in particular \<open>[a, b, c]\<close> with \<open>c\<close>
  repeating the url of \<open>a\<close> becomes \<open>[a, b]\<close>.
\<close>

theorem deduplicate_by_url_first_occurrence_wins:
  "deduplicate_by_url all_results = map (\<lambda>i. all_results ! i) (first_occurrences all_results)
   \<and> (SearchResult.url a = SearchResult.url c \<and> SearchResult.url a \<noteq> SearchResult.url b
        \<longrightarrow> deduplicate_by_url [a, b, c] = [a, b])"
proof
  show "deduplicate_by_url all_results = map (\<lambda>i. all_results ! i) (first_occurrences all_results)"
    by (simp add: deduplicate_by_url_def first_occurrences_def dedup_loop_positions)
  show "SearchResult.url a = SearchResult.url c \<and> SearchResult.url a \<noteq> SearchResult.url b
          \<longrightarrow> deduplicate_by_url [a, b, c] = [a, b]"
    by (simp add: deduplicate_by_url_def)
qed

theorem deduplicate_by_url_first_occurrence_wins_witness:
  "deduplicate_by_url [result_A, result_B, result_C] = [result_A, result_B]
   \<and> first_occurrences [result_A, result_B, result_C] = [0, 1]
   \<and> deduplicate_by_url [result_A, result_B, result_C] \<noteq> [result_C, result_B]"
  using deduplicate_by_url_first_occurrence_wins
          [of "[result_A, result_B, result_C]" result_A result_C result_B]
        first_occurrences_ABC
  by (simp add: result_A_def result_B_def result_C_def)

section \<open>Sticky failover of the model client\<close>

lemma generate_fallback_set:
  "LLMClient.use_fallback c \<Longrightarrow> generate P F c args =
     (case backend_generate F (fallback c) args of (r, fs) \<Rightarrow> (r, c\<lparr>fallback := fs\<rparr>))"
  by (subst generate.simps) simp

lemma generate_json_fallback_set:
  "LLMClient.use_fallback c \<Longrightarrow> generate_json P F c p sp t =
     (case backend_generate_json F (fallback c) p sp t of (r, fs) \<Rightarrow> (r, c\<lparr>fallback := fs\<rparr>))"
  by (subst generate_json.simps) simp

lemma generate_primary_raises:
  "\<not> LLMClient.use_fallback c \<Longrightarrow> backend_generate P (primary c) args = (Inl e, ps) \<Longrightarrow>
   generate P F c args =
     (case backend_generate F (fallback c) args of
        (r, fs) \<Rightarrow> (r, c\<lparr>primary := ps, fallback := fs, LLMClient.use_fallback := True\<rparr>))"
  by (subst generate.simps) (simp add: generate_fallback_set split: prod.splits)

lemma generate_json_primary_raises:
  "\<not> LLMClient.use_fallback c \<Longrightarrow> backend_generate_json P (primary c) p sp t = (Inl e, ps) \<Longrightarrow>
   generate_json P F c p sp t =
     (case backend_generate_json F (fallback c) p sp t of
        (r, fs) \<Rightarrow> (r, c\<lparr>primary := ps, fallback := fs, LLMClient.use_fallback := True\<rparr>))"
  by (subst generate_json.simps) (simp add: generate_json_fallback_set split: prod.splits)

lemma issue_fallback_set:
  "LLMClient.use_fallback c \<Longrightarrow> issue P F c call =
     (case issue_to_backend F (fallback c) call of (r, fs) \<Rightarrow> (r, c\<lparr>fallback := fs\<rparr>))"
  by (cases call) (simp_all add: generate_fallback_set generate_json_fallback_set split: prod.splits)

lemma issue_primary_raises:
  "\<not> LLMClient.use_fallback c \<Longrightarrow> issue_to_backend P (primary c) call = (r, ps) \<Longrightarrow> raised r \<Longrightarrow>
   issue P F c call =
     (case issue_to_backend F (fallback c) call of
        (r', fs) \<Rightarrow> (r', c\<lparr>primary := ps, fallback := fs, LLMClient.use_fallback := True\<rparr>))"
  by (cases call)
     (auto simp add: generate_primary_raises generate_json_primary_raises isl_def split: prod.splits)

lemma issue_all_fallback_set:
  "LLMClient.use_fallback c \<Longrightarrow> issue_all P F c calls =
     (case issue_all_to_backend F (fallback c) calls of (rs, fs) \<Rightarrow> (rs, c\<lparr>fallback := fs\<rparr>))"
proof (induction calls arbitrary: c)
  case Nil
  then show ?case by simp
next
  case (Cons call calls)
  then show ?case
    by (simp add: issue_fallback_set split: prod.splits)
qed

text \<open>
  C3. A new client has \<^verbatim>\<open>_use_fallback\<close> false. A call (either method) on a client whose
  flag is false and whose primary backend raises sets the flag, sends the same call to
  the fallback backend once and gives the caller what the fallback gives: its value, or
  the exception it raises. Any later sequence of calls on a client whose flag is true is
  answered by the fallback backend alone: the primary is not called again and the flag
  stays true.
\<close>

theorem llm_client_sticky_failover:
  "\<not> LLMClient.use_fallback (LLMClient_init p f)
   \<and> (\<not> LLMClient.use_fallback c \<and> issue_to_backend P (primary c) call = (r, ps) \<and> raised r
        \<longrightarrow> issue P F c call =
              (case issue_to_backend F (fallback c) call of
                 (r', fs) \<Rightarrow> (r', c\<lparr>primary := ps, fallback := fs, LLMClient.use_fallback := True\<rparr>)))
   \<and> (LLMClient.use_fallback c' \<longrightarrow>
        issue_all P F c' calls =
          (case issue_all_to_backend F (fallback c') calls of (rs, fs) \<Rightarrow> (rs, c'\<lparr>fallback := fs\<rparr>)))"
proof (intro conjI impI)
  show "\<not> LLMClient.use_fallback (LLMClient_init p f)"
    by (simp add: LLMClient_init_def)
next
  assume "\<not> LLMClient.use_fallback c \<and> issue_to_backend P (primary c) call = (r, ps) \<and> raised r"
  then show "issue P F c call =
              (case issue_to_backend F (fallback c) call of
                 (r', fs) \<Rightarrow> (r', c\<lparr>primary := ps, fallback := fs, LLMClient.use_fallback := True\<rparr>))"
    by (simp add: issue_primary_raises)
next
  assume "LLMClient.use_fallback c'"
  then show "issue_all P F c' calls =
          (case issue_all_to_backend F (fallback c') calls of (rs, fs) \<Rightarrow> (rs, c'\<lparr>fallback := fs\<rparr>))"
    by (rule issue_all_fallback_set)
qed

theorem llm_client_sticky_failover_witness:
  "\<not> LLMClient.use_fallback (LLMClient_init (0::nat) (0::nat))
   \<and> issue failing_backend answering_backend (LLMClient_init 0 0) (Generate example_args)
       = (Text (Inr ''an answer''), \<lparr>primary = 1, fallback = 1, LLMClient.use_fallback = True\<rparr>)
   \<and> issue_all failing_backend answering_backend
        \<lparr>primary = 1, fallback = 1, LLMClient.use_fallback = True\<rparr>
        [GenerateJson ''q'' None None, Generate example_args]
       = ([Object (Inr (JDict [(''ok'', JBool True)])), Text (Inr ''an answer'')],
          \<lparr>primary = 1, fallback = 3, LLMClient.use_fallback = True\<rparr>)
   \<and> issue failing_backend failing_backend (LLMClient_init 0 0) (Generate example_args)
       = (Text (Inl (Raised ''APIError'' ''backend down'')),
          \<lparr>primary = 1, fallback = 1, LLMClient.use_fallback = True\<rparr>)"
  using llm_client_sticky_failover [of "0::nat" "0::nat" "LLMClient_init 0 0" failing_backend "Generate example_args"
              "Text (Inl (Raised ''APIError'' ''backend down''))" 1 answering_backend
              "\<lparr>primary = 1::nat, fallback = 1::nat, LLMClient.use_fallback = True\<rparr>"
              "[GenerateJson ''q'' None None, Generate example_args]"]
        llm_client_sticky_failover [of "0::nat" "0::nat" "LLMClient_init 0 0" failing_backend "Generate example_args"
              "Text (Inl (Raised ''APIError'' ''backend down''))" 1 failing_backend
              "\<lparr>primary = 1::nat, fallback = 1::nat, LLMClient.use_fallback = True\<rparr>" "[]"]
  by (simp add: LLMClient_init_def failing_backend_def answering_backend_def example_args_def)

section \<open>Failover of the search provider\<close>

lemma execute_search_empty_primary:
  "\<not> WebSearch.use_fallback w \<Longrightarrow> P (primary_provider w) q n = (Inr [], ps) \<Longrightarrow>
   execute_search P F w q n =
     (case F (fallback_provider w) q n of
        (r, fs) \<Rightarrow>
          (case r of Inr results \<Rightarrow> results | Inl e \<Rightarrow> [],
           w\<lparr>primary_provider := ps, fallback_provider := fs, WebSearch.use_fallback := True\<rparr>))"
  by (subst execute_search.simps) (simp add: Let_def split: prod.splits sum.splits)

lemma execute_search_flag_set:
  "WebSearch.use_fallback w \<Longrightarrow>
   execute_search P F w q n =
     (case F (fallback_provider w) q n of
        (r, fs) \<Rightarrow> (case r of Inr results \<Rightarrow> results | Inl e \<Rightarrow> [], w\<lparr>fallback_provider := fs\<rparr>))"
  by (subst execute_search.simps) (simp split: prod.splits sum.splits)

lemma execute_search_raising_primary:
  "\<not> WebSearch.use_fallback w \<Longrightarrow> P (primary_provider w) q n = (Inl e, ps) \<Longrightarrow>
   execute_search P F w q n =
     (case F (fallback_provider w) q n of
        (r, fs) \<Rightarrow>
          (case r of Inr results \<Rightarrow> results | Inl e \<Rightarrow> [],
           w\<lparr>primary_provider := ps, fallback_provider := fs, WebSearch.use_fallback := True\<rparr>))"
  by (subst execute_search.simps) (simp add: execute_search_flag_set split: prod.splits sum.splits)

text \<open>
  C8. With \<^verbatim>\<open>_use_fallback\<close> false, a primary provider that returns an empty list makes
  \<^verbatim>\<open>_execute_search\<close> set the flag and query the fallback provider once with the same
  query and limit; what the fallback returns is the result (\<^verbatim>\<open>[]\<close> if the fallback
  raises). The result and the state left behind are the same as when the primary raises
  instead of returning an empty list.
\<close>

theorem execute_search_empty_primary_fails_over:
  "(\<not> WebSearch.use_fallback w \<and> P (primary_provider w) q n = (Inr [], ps) \<longrightarrow>
      execute_search P F w q n =
        (case F (fallback_provider w) q n of
           (r, fs) \<Rightarrow>
             (case r of Inr results \<Rightarrow> results | Inl e \<Rightarrow> [],
              w\<lparr>primary_provider := ps, fallback_provider := fs, WebSearch.use_fallback := True\<rparr>)))
   \<and> (\<not> WebSearch.use_fallback w \<and> P (primary_provider w) q n = (Inr [], ps)
        \<and> P' (primary_provider w) q n = (Inl e, ps) \<longrightarrow>
      execute_search P F w q n = execute_search P' F w q n)"
  by (simp add: execute_search_empty_primary execute_search_raising_primary
        del: execute_search.simps)

theorem execute_search_empty_primary_fails_over_witness:
  "execute_search empty_provider one_hit_provider
      \<lparr>primary_provider = 0, fallback_provider = 0, WebSearch.use_fallback = False\<rparr> ''rust'' 5
     = ([JDict [(''url'', JStr ''https://u1.example''), (''title'', JStr ''rust'')]],
        \<lparr>primary_provider = 1, fallback_provider = 1, WebSearch.use_fallback = True\<rparr>)
   \<and> execute_search empty_provider one_hit_provider
        \<lparr>primary_provider = 0, fallback_provider = 0, WebSearch.use_fallback = False\<rparr> ''rust'' 5
     = execute_search raising_provider one_hit_provider
        \<lparr>primary_provider = 0, fallback_provider = 0, WebSearch.use_fallback = False\<rparr> ''rust'' 5"
  using execute_search_empty_primary_fails_over [of "\<lparr>primary_provider = 0::nat, fallback_provider = 0::nat, WebSearch.use_fallback = False\<rparr>"
              empty_provider "''rust''" 5 1 one_hit_provider raising_provider
              "Raised ''HTTPError'' ''503''"]
  by (simp add: execute_search.simps empty_provider_def one_hit_provider_def raising_provider_def)

section \<open>Retry with backoff\<close>

text \<open>The exponent found by \<open>exponent_of\<close> is the right one.\<close>

lemma pow_bitlen:
  assumes "0 < (n::int)"
  shows "(2::rat) powi (bitlen n - 1) \<le> of_int n" "of_int n < (2::rat) powi (bitlen n)"
proof -
  from bitlen_bounds[OF assms] have b: "2 ^ nat (bitlen n - 1) \<le> n" "n < 2 ^ nat (bitlen n)" by auto
  have ge1: "1 \<le> bitlen n" using assms by (auto simp: bitlen_alt_def)
  have "(of_int (2 ^ nat (bitlen n - 1)) :: rat) \<le> of_int n" using b(1) by (simp only: of_int_le_iff)
  then show "(2::rat) powi (bitlen n - 1) \<le> of_int n"
    using ge1 by (simp add: power_int_def)
  have "(of_int n :: rat) < of_int (2 ^ nat (bitlen n))" using b(2) by (simp only: of_int_less_iff)
  then show "of_int n < (2::rat) powi (bitlen n)"
    using ge1 by (simp add: power_int_def)
qed

lemma exponent_of_bounds:
  assumes "0 < x"
  shows "2 powi (exponent_of x) \<le> x \<and> x < 2 powi (exponent_of x + 1)"
proof -
  obtain a b where q: "quotient_of x = (a, b)" by (cases "quotient_of x")
  then have b: "0 < b" and x: "x = of_int a / of_int b"
    by (simp_all add: quotient_of_denom_pos quotient_of_div)
  from assms x b have a: "0 < a" by (simp add: zero_less_divide_iff)
  note A = pow_bitlen[OF a] and B = pow_bitlen[OF b]
  have bpos: "(0::rat) < of_int b" using b by simp
  have p: "\<And>e. (0::rat) < 2 powi e" by simp
  have up: "x < 2 powi (bitlen a - bitlen b + 1)"
  proof -
    have "x < 2 powi (bitlen a) / 2 powi (bitlen b - 1)"
      unfolding x using a by (intro frac_less A(2) B(1) p) simp
    also have "\<dots> = 2 powi (bitlen a - bitlen b + 1)"
      by (simp add: power_int_diff power_int_add field_simps)
    finally show ?thesis .
  qed
  have lo: "2 powi (bitlen a - bitlen b - 1) \<le> x"
  proof -
    have "2 powi (bitlen a - 1) / 2 powi (bitlen b) \<le> x"
      unfolding x using a B(2) by (intro frac_le A(1) bpos) simp_all
    moreover have "2 powi (bitlen a - 1) / 2 powi (bitlen b) = (2::rat) powi (bitlen a - bitlen b - 1)"
      by (simp add: power_int_diff power_int_add field_simps)
    ultimately show ?thesis by simp
  qed
  show ?thesis
    using up lo q by (simp add: exponent_of_def Let_def not_le)
qed

lemma binary64_examples:
  "binary64 (1 / 10) = 3602879701896397 / 2 ^ 55"
  "binary64 3 = 3"
  "binary64 (3 ^ 2) = 9"
  "binary64 (binary64 (1 / 10)) = binary64 (1 / 10)"
  by code_simp+

lemma retry_loop_exhausted:
  "M < attempt \<Longrightarrow>
   retry_loop multiply func M bf attempt delay (Some e) st calls slept
     = \<lparr>outcome = Inl e, world = st, invocations = calls, sleeps = slept\<rparr>"
  by (subst retry_loop.simps) simp

lemma upt_shift_map: "map f [0..<Suc n] = f 0 # map (\<lambda>j. f (Suc j)) [0..<n]"
  by (simp add: upt_conv_Cons map_Suc_upt[symmetric] del: upt_Suc)

lemma multiply_funpow_shift:
  "multiply (((\<lambda>d. multiply d bf) ^^ k) delay) bf = ((\<lambda>d. multiply d bf) ^^ k) (multiply delay bf)"
  using funpow_swap1[of "\<lambda>d. multiply d bf" k delay] by simp

lemma retry_loop_spec:
  "attempt \<le> M \<Longrightarrow>
   \<exists>rs. rs \<noteq> [] \<and> int (length rs) \<le> M - attempt + 1
      \<and> invoke_n func st (length rs)
           = (rs, world (retry_loop multiply func M bf attempt delay le st calls slept))
      \<and> invocations (retry_loop multiply func M bf attempt delay le st calls slept) = calls @ rs
      \<and> (\<forall>x\<in>set (butlast rs). isl x)
      \<and> outcome (retry_loop multiply func M bf attempt delay le st calls slept) = last rs
      \<and> (isl (last rs) \<longrightarrow> int (length rs) = M - attempt + 1)
      \<and> sleeps (retry_loop multiply func M bf attempt delay le st calls slept)
           = slept @ map (\<lambda>j. ((\<lambda>d. multiply d bf) ^^ j) delay) [0..<length rs - 1]"
proof (induction multiply func M bf attempt delay le st calls slept rule: retry_loop.induct)
  case (1 multiply func M bf attempt delay le st calls slept)
  obtain r st' where f: "func st = (r, st')" by (cases "func st")
  show ?case
  proof (cases r)
    case (Inr v)
    with f 1 show ?thesis
      by (subst (1 2 3 4) retry_loop.simps) (auto intro!: exI[of _ "[Inr v]"])
  next
    case (Inl e)
    show ?thesis
    proof (cases "attempt < M")
      case True
      then have le': "attempt + 1 \<le> M" by simp
      from "1.IH"(1)[OF _ f[unfolded Inl, symmetric] _ True le'] "1.prems"
      obtain rs where rs: "rs \<noteq> []" "int (length rs) \<le> M - (attempt + 1) + 1"
        "invoke_n func st' (length rs)
           = (rs, world (retry_loop multiply func M bf (attempt + 1) (multiply delay bf) (Some e) st' (calls @ [Inl e]) (slept @ [delay])))"
        "invocations (retry_loop multiply func M bf (attempt + 1) (multiply delay bf) (Some e) st' (calls @ [Inl e]) (slept @ [delay])) = (calls @ [Inl e]) @ rs"
        "\<forall>x\<in>set (butlast rs). isl x"
        "outcome (retry_loop multiply func M bf (attempt + 1) (multiply delay bf) (Some e) st' (calls @ [Inl e]) (slept @ [delay])) = last rs"
        "isl (last rs) \<longrightarrow> int (length rs) = M - (attempt + 1) + 1"
        "sleeps (retry_loop multiply func M bf (attempt + 1) (multiply delay bf) (Some e) st' (calls @ [Inl e]) (slept @ [delay]))
           = (slept @ [delay]) @ map (\<lambda>j. ((\<lambda>d. multiply d bf) ^^ j) (multiply delay bf)) [0..<length rs - 1]"
        by auto
      have unf: "retry_loop multiply func M bf attempt delay le st calls slept
          = retry_loop multiply func M bf (attempt + 1) (multiply delay bf) (Some e) st' (calls @ [Inl e]) (slept @ [delay])"
        using True f Inl "1.prems" by (subst retry_loop.simps) simp
      have sl: "map (\<lambda>j. ((\<lambda>d. multiply d bf) ^^ j) delay) [0..<length (Inl e # rs) - 1]
            = delay # map (\<lambda>j. ((\<lambda>d. multiply d bf) ^^ j) (multiply delay bf)) [0..<length rs - 1]"
        using rs(1) by (cases rs) (simp_all add: upt_shift_map multiply_funpow_shift del: upt_Suc)
      show ?thesis
        unfolding unf
        apply (rule exI[of _ "Inl e # rs"])
        using rs f Inl sl by (auto simp del: upt_Suc)
    next
      case False
      with "1.prems" have eq: "attempt = M" by simp
      have unf: "retry_loop multiply func M bf attempt delay le st calls slept
          = \<lparr>outcome = Inl e, world = st', invocations = calls @ [Inl e], sleeps = slept\<rparr>"
        using eq f Inl by (subst retry_loop.simps) (simp add: retry_loop_exhausted)
      show ?thesis
        unfolding unf using f Inl eq by (auto intro!: exI[of _ "[Inl e]"])
    qed
  qed
qed

text \<open>
  C10, as the code has it. For \<open>max_attempts \<ge> 1\<close>, \<^verbatim>\<open>retry_with_backoff\<close> invokes \<open>func\<close>
  between one and \<open>max_attempts\<close> times in a row; every invocation but the last raised; the
  outcome of the call is the outcome of the last invocation (its value, or its exception);
  it is an exception only after \<open>max_attempts\<close> invocations; and the sleep after the \<open>k\<close>-th
  failed invocation (there is none after the last invocation) lasts \<open>initial_delay\<close>
  multiplied \<open>k - 1\<close> times in a row by \<open>backoff_factor\<close>, each product being the one
  \<^verbatim>\<open>delay *= backoff_factor\<close> computes.
\<close>

theorem retry_with_backoff_bounded_attempts:
  "1 \<le> max_attempts \<Longrightarrow>
   (let r = retry_with_backoff multiply func max_attempts initial_delay backoff_factor st;
        n = length (invocations r)
    in 1 \<le> n \<and> int n \<le> max_attempts
       \<and> invoke_n func st n = (invocations r, world r)
       \<and> (\<forall>x\<in>set (butlast (invocations r)). isl x)
       \<and> outcome r = last (invocations r)
       \<and> (isl (outcome r) \<longrightarrow> int n = max_attempts)
       \<and> sleeps r = map (\<lambda>k. ((\<lambda>delay. multiply delay backoff_factor) ^^ k) initial_delay) [0..<n - 1])"
proof -
  assume "1 \<le> max_attempts"
  from retry_loop_spec[OF this, of func st multiply backoff_factor initial_delay None "[]" "[]"]
  obtain rs where rs: "rs \<noteq> []" "int (length rs) \<le> max_attempts - 1 + 1"
      "invoke_n func st (length rs)
           = (rs, world (retry_loop multiply func max_attempts backoff_factor 1 initial_delay None st [] []))"
      "invocations (retry_loop multiply func max_attempts backoff_factor 1 initial_delay None st [] []) = [] @ rs"
      "\<forall>x\<in>set (butlast rs). isl x"
      "outcome (retry_loop multiply func max_attempts backoff_factor 1 initial_delay None st [] []) = last rs"
      "isl (last rs) \<longrightarrow> int (length rs) = max_attempts - 1 + 1"
      "sleeps (retry_loop multiply func max_attempts backoff_factor 1 initial_delay None st [] [])
           = [] @ map (\<lambda>j. ((\<lambda>d. multiply d backoff_factor) ^^ j) initial_delay) [0..<length rs - 1]"
    by blast
  from rs(1) have "1 \<le> length rs" by (cases rs) auto
  with rs show ?thesis
    by (simp add: retry_with_backoff_def Let_def)
qed

lemma sleeps_example:
  "sleeps (retry_with_backoff binary64_mul never_answers 4 (binary64 (1 / 10)) 3 0)
   = [3602879701896397 / 2 ^ 55, 5404319552844596 / 2 ^ 54, 8106479329266894 / 2 ^ 53]"
  by (simp add: retry_with_backoff_def retry_loop.simps never_answers_def) code_simp

theorem retry_with_backoff_bounded_attempts_witness:
  "(1::int) \<le> 4
   \<and> length (invocations (retry_with_backoff binary64_mul never_answers 4 (binary64 (1 / 10)) 3 0)) = 4
   \<and> outcome (retry_with_backoff binary64_mul never_answers 4 (binary64 (1 / 10)) 3 0)
       = Inl (Raised ''TimeoutError'' ''timed out'')
   \<and> sleeps (retry_with_backoff binary64_mul never_answers 4 (binary64 (1 / 10)) 3 0)
       = [binary64 (1 / 10),
          binary64_mul (binary64 (1 / 10)) 3,
          binary64_mul (binary64_mul (binary64 (1 / 10)) 3) 3]
   \<and> retry_with_backoff (*) third_time_lucky 3 (1::int) 2 0
       = \<lparr>outcome = Inr ''done'', world = 3,
          invocations = [Inl (Raised ''TimeoutError'' ''attempt 1''),
                         Inl (Raised ''TimeoutError'' ''attempt 2''), Inr ''done''],
          sleeps = [1, 2]\<rparr>"
  using retry_with_backoff_bounded_attempts [of 4 binary64_mul never_answers "binary64 (1 / 10)" 3 0]
  by (simp add: retry_with_backoff_def retry_loop.simps never_answers_def third_time_lucky_def
        str_nat.simps)

text \<open>
  With floats the repeated product is not the closed form. For \<^verbatim>\<open>initial_delay=0.1\<close> and
  \<^verbatim>\<open>backoff_factor=3.0\<close> the third sleep is \<^verbatim>\<open>0.1 * 3.0 * 3.0 = 0.9000000000000001\<close>, while
  \<^verbatim>\<open>0.1 * 3.0 ** 2 = 0.9\<close>, and the exact product of the float \<^verbatim>\<open>0.1\<close> and 9 is yet
  another number.
\<close>

theorem third_sleep_differs_from_closed_form:
  "sleeps (retry_with_backoff binary64_mul never_answers 4 (binary64 (1 / 10)) 3 0) ! 2
     = 8106479329266894 / 2 ^ 53
   \<and> binary64_mul (binary64 (1 / 10)) (binary64 (3 ^ 2)) = 8106479329266893 / 2 ^ 53
   \<and> binary64 (1 / 10) * 3 ^ 2 = 32425917317067573 / 2 ^ 55
   \<and> sleeps (retry_with_backoff binary64_mul never_answers 4 (binary64 (1 / 10)) 3 0) ! 2
       \<noteq> binary64_mul (binary64 (1 / 10)) (binary64 (3 ^ 2))
   \<and> sleeps (retry_with_backoff binary64_mul never_answers 4 (binary64 (1 / 10)) 3 0) ! 2
       \<noteq> binary64 (1 / 10) * 3 ^ 2"
  unfolding sleeps_example by code_simp

section \<open>Invariants of a research run\<close>

subsection \<open>The stage sequence as a list\<close>

lemma run_stage_trace_nonempty: "snd (run_stage cb f d stage s) \<noteq> []"
  by (simp add: run_stage_def Let_def split: prod.splits option.splits)

lemma run_list_single: "run_list [(stage, f, d)] s = run_stage None f d stage s"
  by (simp split: prod.splits option.splits)

lemma run_list_trace_nonempty: "its \<noteq> [] \<Longrightarrow> snd (run_list its s) \<noteq> []"
proof (cases its)
  case Nil
  then show "its \<noteq> [] \<Longrightarrow> ?thesis" by simp
next
  case (Cons item rest)
  obtain stage f d where item: "item = (stage, f, d)" by (cases item)
  obtain r tr where rs: "run_stage None f d stage s = (r, tr)" by (cases "run_stage None f d stage s")
  with run_stage_trace_nonempty[of None f d stage s] have "tr \<noteq> []" by simp
  with Cons item rs show ?thesis
    by (simp split: prod.splits option.splits)
qed

lemma run_list_snoc:
  "run_list (its @ [(stage, f, d)]) s =
     (case run_list its s of
        (Some e, tr) \<Rightarrow> (Some e, tr)
      | (None, tr) \<Rightarrow>
          (case run_stage None f d stage (last (s # tr)) of (r, tr') \<Rightarrow> (r, tr @ tr')))"
proof (induction its arbitrary: s)
  case Nil
  show ?case by (simp split: prod.splits option.splits)
next
  case (Cons item rest)
  obtain stage0 f0 d0 where item: "item = (stage0, f0, d0)" by (cases item)
  obtain r0 tr0 where rs: "run_stage None f0 d0 stage0 s = (r0, tr0)"
    by (cases "run_stage None f0 d0 stage0 s")
  with run_stage_trace_nonempty[of None f0 d0 stage0 s] have ne: "tr0 \<noteq> []" by simp
  show ?case
  proof (cases r0)
    case None
    with item rs ne show ?thesis
      by (simp add: Cons.IH split: prod.splits option.splits)
  next
    case (Some e)
    with item rs show ?thesis by simp
  qed
qed

lemma and_then_run_stage:
  assumes "its \<noteq> []"
  shows "and_then (run_list its s) (run_stage None f d stage) = run_list (its @ [(stage, f, d)]) s"
proof -
  obtain r tr where rs: "run_list its s = (r, tr)" by (cases "run_list its s")
  with run_list_trace_nonempty[OF assms, of s] have "tr \<noteq> []" by simp
  with rs show ?thesis
    by (simp add: run_list_snoc and_then_def split: prod.splits option.splits)
qed

lemma and_then_skip: "and_then R (\<lambda>s. (None, [])) = R"
  by (simp add: and_then_def split: prod.splits option.splits)

lemma run_stages_as_list: "run_stages env verify_claims s = run_list (stage_items env verify_claims) s"
  unfolding run_stages_def stage_items_def
  by (cases verify_claims)
     (simp_all only: run_list_single[symmetric] and_then_run_stage and_then_skip if_True if_False
        append.simps list.distinct not_False_eq_True)

subsection \<open>Bookkeeping along the stage runs\<close>

lemma run_stage_no_callback:
  "run_stage None stage_func duration stage session =
     (let s1 = session\<lparr>progress := (progress session)\<lparr>current_stage := stage\<rparr>\<rparr>;
          s2 = snd (stage_func s1)
      in case fst (stage_func s1) of
           None \<Rightarrow> (None, [s1, s2, s2\<lparr>progress := complete_stage stage duration (progress s2)\<rparr>])
         | Some e \<Rightarrow>
             (Some e,
              [s1, s2,
               s2\<lparr>progress := (progress s2)
                     \<lparr>errors := errors (progress s2) @ [stage_value stage @ '': '' @ exn_str e]\<rparr>\<rparr>]))"
  by (simp add: run_stage_def notify_def Let_def split: prod.splits option.splits)

text \<open>
  Along the stage runs started from \<open>s\<close>, when no callable touches the bookkeeping: the
  session id stays, \<^verbatim>\<open>stages_completed\<close> is what it was in \<open>s\<close> followed by the first \<open>k\<close>
  stages of the list (all of them only while the last stage is current), its length never
  decreases, and after a run without exception it holds every stage of the list.
\<close>

lemma run_list_invariant:
  assumes "\<forall>item\<in>set its. keeps_bookkeeping (fst (snd item))"
  shows "(\<forall>x\<in>set (snd (run_list its s)).
            session_id x = session_id s
            \<and> (\<exists>k\<le>length its.
                  stages_completed (progress x)
                    = stages_completed (progress s) @ map fst (take k its)
                  \<and> (k = length its \<longrightarrow> current_stage (progress x) = fst (last its))))
       \<and> sorted (map (\<lambda>x. length (stages_completed (progress x))) (s # snd (run_list its s)))
       \<and> (fst (run_list its s) = None \<longrightarrow>
             stages_completed (progress (last (s # snd (run_list its s))))
               = stages_completed (progress s) @ map fst its)"
  using assms
proof (induction its arbitrary: s)
  case Nil
  show ?case by simp
next
  case (Cons item rest)
  obtain stage f d where item: "item = (stage, f, d)" by (cases item)
  from Cons.prems item have kf: "keeps_bookkeeping f"
    and krest: "\<forall>item\<in>set rest. keeps_bookkeeping (fst (snd item))" by auto
  define s1 where "s1 = s\<lparr>progress := (progress s)\<lparr>current_stage := stage\<rparr>\<rparr>"
  define s2 where "s2 = snd (f s1)"
  have p2: "progress s2 = progress s1" and i2: "session_id s2 = session_id s1"
    using kf by (simp_all add: s2_def keeps_bookkeeping_def)
  have c1: "stages_completed (progress s1) = stages_completed (progress s)"
    and i1: "session_id s1 = session_id s" and g1: "current_stage (progress s1) = stage"
    by (simp_all add: s1_def)
  show ?case
  proof (cases "fst (f s1)")
    case (Some e)
    define s3 where "s3 = s2\<lparr>progress := (progress s2)
        \<lparr>errors := errors (progress s2) @ [stage_value stage @ '': '' @ exn_str e]\<rparr>\<rparr>"
    have run: "run_list (item # rest) s = (Some e, [s1, s2, s3])"
      using Some by (simp add: item run_stage_no_callback Let_def s1_def s2_def s3_def)
    have c3: "stages_completed (progress s3) = stages_completed (progress s)"
      and i3: "session_id s3 = session_id s" and g3: "current_stage (progress s3) = stage"
      by (simp_all add: s3_def p2 i2 c1 i1 g1)
    show ?thesis
      unfolding run
      using c1 i1 p2 i2 c3 i3
      by (auto intro!: exI[of _ 0])
  next
    case None
    define s3 where "s3 = s2\<lparr>progress := complete_stage stage d (progress s2)\<rparr>"
    obtain r' tr' where rest: "run_list rest s3 = (r', tr')" by (cases "run_list rest s3")
    have run: "run_list (item # rest) s = (r', [s1, s2, s3] @ tr')"
      using None rest by (simp add: item run_stage_no_callback Let_def s1_def s2_def s3_def)
    have c3: "stages_completed (progress s3) = stages_completed (progress s) @ [stage]"
      and i3: "session_id s3 = session_id s" and g3: "current_stage (progress s3) = stage"
      by (simp_all add: s3_def p2 i2 c1 i1 g1 complete_stage_def)
    note IH = Cons.IH[OF krest, of s3, unfolded rest, simplified]
    have A: "\<forall>x\<in>set ([s1, s2, s3] @ tr'). session_id x = session_id s"
      using IH i1 i2 i3 by auto
    have B: "\<forall>x\<in>set ([s1, s2, s3] @ tr').
               \<exists>k\<le>length (item # rest).
                  stages_completed (progress x)
                    = stages_completed (progress s) @ map fst (take k (item # rest))
                  \<and> (k = length (item # rest)
                       \<longrightarrow> current_stage (progress x) = fst (last (item # rest)))"
    proof
      fix x assume "x \<in> set ([s1, s2, s3] @ tr')"
      then consider "x = s1" | "x = s2" | "x = s3" | "x \<in> set tr'" by auto
      then show "\<exists>k\<le>length (item # rest).
                  stages_completed (progress x)
                    = stages_completed (progress s) @ map fst (take k (item # rest))
                  \<and> (k = length (item # rest)
                       \<longrightarrow> current_stage (progress x) = fst (last (item # rest)))"
      proof cases
        case 1
        then show ?thesis using c1 by (intro exI[of _ 0]) simp
      next
        case 2
        then show ?thesis using c1 p2 by (intro exI[of _ 0]) simp
      next
        case 3
        then show ?thesis using c3 g3 item by (intro exI[of _ 1]) auto
      next
        case 4
        then have ne: "rest \<noteq> []" using rest by (cases rest) auto
        from 4 IH obtain k where k: "k \<le> length rest"
          "stages_completed (progress x) = stages_completed (progress s3) @ map fst (take k rest)"
          "k = length rest \<longrightarrow> current_stage (progress x) = fst (last rest)"
          by blast
        show ?thesis
          using k ne c3 item by (intro exI[of _ "Suc k"]) auto
      qed
    qed
    have C: "sorted (map (\<lambda>x. length (stages_completed (progress x))) (s # [s1, s2, s3] @ tr'))"
      using IH c1 c3 p2 by (auto simp add: sorted_append)
    have D: "r' = None \<longrightarrow>
             stages_completed (progress (last (s # [s1, s2, s3] @ tr')))
               = stages_completed (progress s) @ map fst (item # rest)"
      using IH c3 item by (cases "tr' = []") auto
    show ?thesis
      unfolding run using A B C D by simp
  qed
qed

subsection \<open>The states of \<open>research\<close>\<close>

lemma stage_items_plan: "map fst (stage_items env verify_claims) = stage_plan verify_claims"
  by (simp add: stage_items_def stage_plan_def canonical_order_def ResearchStage_members_def)

lemma stage_items_keep:
  "stage_methods_keep_bookkeeping env \<Longrightarrow>
   \<forall>item\<in>set (stage_items env verify_claims). keeps_bookkeeping (fst (snd item))"
  by (simp add: stage_methods_keep_bookkeeping_def stage_items_def)

text \<open>The states of a run, from the states of its stage runs.\<close>

lemma research_states:
  "snd (snd (research env orch q verify_claims progress_callback)) =
     (let session = fst (create_session (now env) q orch) in
      case run_list (stage_items env verify_claims) session of
        (Some e, states) \<Rightarrow> session # states
      | (None, states) \<Rightarrow>
          session # states
            @ [(last states)\<lparr>progress := (progress (last states))\<lparr>current_stage := COMPLETE\<rparr>\<rparr>])"
  by (simp add: research_def run_stages_as_list and_then_def Let_def case_prod_beta
        split: option.splits)

lemma fresh_session_bookkeeping:
  "stages_completed (progress (fst (create_session t q orch))) = []"
  "session_id (fst (create_session t q orch)) = ''session_'' @ str_nat (session_counter orch + 1) @ ''_'' @ t"
  by (simp_all add: create_session_def Let_def)

lemma sorted_snoc_le: "sorted xs \<Longrightarrow> \<forall>x\<in>set xs. x \<le> b \<Longrightarrow> sorted (xs @ [b])"
  by (simp add: sorted_append)

lemma sorted_map_le_last: "sorted (map f xs) \<Longrightarrow> x \<in> set xs \<Longrightarrow> f x \<le> f (last xs)"
  by (induction xs) auto

lemma research_states_invariant:
  assumes "stage_methods_keep_bookkeeping env"
  shows "(\<forall>x\<in>set (snd (snd (research env orch q verify_claims progress_callback))).
            session_id x = session_id (fst (create_session (now env) q orch))
            \<and> (\<exists>k\<le>length (stage_plan verify_claims).
                  stages_completed (progress x) = take k (stage_plan verify_claims)
                  \<and> (k = length (stage_plan verify_claims) \<longrightarrow>
                       current_stage (progress x) \<in> {OUTPUT_GENERATION, COMPLETE})))
       \<and> sorted (map (\<lambda>x. length (stages_completed (progress x)))
                  (snd (snd (research env orch q verify_claims progress_callback))))"
proof -
  define session where "session = fst (create_session (now env) q orch)"
  define its where "its = stage_items env verify_claims"
  obtain r tr where run: "run_list its session = (r, tr)" by (cases "run_list its session")
  have c0: "stages_completed (progress session) = []"
    by (simp add: session_def fresh_session_bookkeeping)
  have len: "length its = length (stage_plan verify_claims)"
    unfolding its_def by (metis stage_items_plan length_map)
  have lst: "fst (last its) = OUTPUT_GENERATION"
    by (simp add: its_def stage_items_def)
  have ne: "its \<noteq> []" by (simp add: its_def stage_items_def)
  have tne: "tr \<noteq> []" using run_list_trace_nonempty[OF ne, of session] run by simp
  have inv:
    "\<forall>x\<in>set tr. session_id x = session_id session
        \<and> (\<exists>k\<le>length its. stages_completed (progress x) = map fst (take k its)
               \<and> (k = length its \<longrightarrow> current_stage (progress x) = fst (last its)))"
    "sorted (map (\<lambda>x. length (stages_completed (progress x))) (session # tr))"
    using run_list_invariant[OF stage_items_keep[OF assms, of verify_claims], of session]
    unfolding its_def[symmetric] run c0 by simp_all
  have mp: "\<And>k. map fst (take k its) = take k (stage_plan verify_claims)"
    by (simp add: its_def take_map[symmetric] stage_items_plan)
  have st: "snd (snd (research env orch q verify_claims progress_callback)) =
      (case r of Some e \<Rightarrow> session # tr
       | None \<Rightarrow> session # tr
            @ [(last tr)\<lparr>progress := (progress (last tr))\<lparr>current_stage := COMPLETE\<rparr>\<rparr>])"
    using run by (simp add: research_states session_def[symmetric] its_def[symmetric])
  have X: "\<forall>x\<in>set tr. session_id x = session_id session
            \<and> (\<exists>k\<le>length (stage_plan verify_claims).
                  stages_completed (progress x) = take k (stage_plan verify_claims)
                  \<and> (k = length (stage_plan verify_claims) \<longrightarrow>
                       current_stage (progress x) \<in> {OUTPUT_GENERATION, COMPLETE}))"
    using inv(1) unfolding mp len lst by blast
  have X0: "\<exists>k\<le>length (stage_plan verify_claims).
                  stages_completed (progress session) = take k (stage_plan verify_claims)
                  \<and> (k = length (stage_plan verify_claims) \<longrightarrow>
                       current_stage (progress session) \<in> {OUTPUT_GENERATION, COMPLETE})"
    by (rule exI[of _ 0]) (simp add: c0 stage_plan_def canonical_order_def ResearchStage_members_def)
  have S: "sorted (map (\<lambda>x. length (stages_completed (progress x))) (session # tr))"
    using inv(2) .
  show ?thesis
  proof (cases r)
    case (Some e)
    with st X X0 S show ?thesis by (simp add: session_def[symmetric])
  next
    case None
    let ?s' = "(last tr)\<lparr>progress := (progress (last tr))\<lparr>current_stage := COMPLETE\<rparr>\<rparr>"
    have lastin: "last tr \<in> set tr" using tne by simp
    from X lastin obtain k where k: "k \<le> length (stage_plan verify_claims)"
       "stages_completed (progress (last tr)) = take k (stage_plan verify_claims)" by blast
    have X': "session_id ?s' = session_id session
            \<and> (\<exists>k\<le>length (stage_plan verify_claims).
                  stages_completed (progress ?s') = take k (stage_plan verify_claims)
                  \<and> (k = length (stage_plan verify_claims) \<longrightarrow>
                       current_stage (progress ?s') \<in> {OUTPUT_GENERATION, COMPLETE}))"
      using X lastin k by auto
    have "\<forall>x\<in>set (session # tr). length (stages_completed (progress x))
             \<le> length (stages_completed (progress (last tr)))"
      using S tne
      using S sorted_map_le_last[of "\<lambda>x. length (stages_completed (progress x))" "session # tr"] tne
      by auto
    then have S': "sorted (map (\<lambda>x. length (stages_completed (progress x))) ((session # tr) @ [?s']))"
      using sorted_snoc_le[OF S, of "length (stages_completed (progress ?s'))"] by simp
    from None st X X0 X' S' show ?thesis by (simp add: session_def[symmetric])
  qed
qed

lemma stage_plan_values:
  "stage_plan True = canonical_order"
  "stage_plan False = [QUERY_ANALYSIS, WEB_SEARCH, REASONING, CITATION, OUTPUT_GENERATION]"
  "canonical_order
     = [QUERY_ANALYSIS, WEB_SEARCH, REASONING, VERIFICATION, CITATION, OUTPUT_GENERATION]"
  by (simp_all add: stage_plan_def canonical_order_def ResearchStage_members_def)

lemma research_states_nonempty:
  "snd (snd (research env orch q verify_claims progress_callback)) \<noteq> []"
  by (simp add: research_states Let_def split: prod.splits option.splits)

lemma research_final_session_id:
  assumes "stage_methods_keep_bookkeeping env"
  shows "session_id (last (snd (snd (research env orch q verify_claims progress_callback))))
           = session_id (fst (create_session (now env) q orch))"
  using research_states_invariant[OF assms, of orch q verify_claims progress_callback]
        research_states_nonempty[of env orch q verify_claims progress_callback]
  by (meson last_in_set)

lemma research_orchestrator_after:
  "fst (snd (research env orch q verify_claims progress_callback))
     = cleanup_session
         (session_id (last (snd (snd (research env orch q verify_claims progress_callback)))))
         (snd (create_session (now env) q orch))"
  by (simp add: research_def Let_def case_prod_beta)

lemma percentage_of_length:
  "progress_percentage p = real (length (stages_completed p)) / 6 * 100"
  by (simp add: progress_percentage_def ResearchStage_members_def)

lemmas research_eval = research_def create_session_def empty_orchestrator_def
      run_stages_def and_then_def run_stage_def notify_def succeeds_def fails_with_def Let_def
      handle_research_failure_def generate_fallback_content_def complete_stage_def str_nat.simps
      cleanup_session_def

lemma example_envs_keep_bookkeeping:
  "stage_methods_keep_bookkeeping all_succeed"
  "stage_methods_keep_bookkeeping search_fails"
  "stage_methods_keep_bookkeeping malformed_reply"
  by (simp_all add: stage_methods_keep_bookkeeping_def keeps_bookkeeping_def all_succeed_def
        search_fails_def malformed_reply_def succeeds_def fails_with_def)

lemma last_state_without_verification:
  "progress (last (snd (snd (research all_succeed empty_orchestrator ''what is rust'' False None))))
     = \<lparr>current_stage = COMPLETE,
        stages_completed = [QUERY_ANALYSIS, WEB_SEARCH, REASONING, CITATION, OUTPUT_GENERATION],
        stage_times = [(''query_analysis'', 1), (''web_search'', 1), (''reasoning'', 1),
                       (''citation'', 1), (''output_generation'', 1)],
        errors = []\<rparr>"
  by (simp add: research_eval all_succeed_def)

subsection \<open>Completed stages\<close>

text \<open>
  C4, as the code has it. In every state a run passes through, \<^verbatim>\<open>stages_completed\<close> is a
  prefix of the run's own stage sequence: the canonical order when claim verification is
  enabled, the canonical order without \<^verbatim>\<open>verification\<close> when it is disabled. This holds for
  stage callables that assign neither to the session id nor to the progress record.
\<close>

theorem stages_completed_prefix_of_stage_plan:
  assumes "stage_methods_keep_bookkeeping env"
  shows "\<forall>x\<in>set (snd (snd (research env orch q verify_claims progress_callback))).
           prefix (stages_completed (progress x)) (stage_plan verify_claims)"
  using research_states_invariant[OF assms, of orch q verify_claims progress_callback]
  by (metis take_is_prefix)

theorem stages_completed_prefix_of_stage_plan_witness:
  "stage_methods_keep_bookkeeping all_succeed
   \<and> prefix
        (stages_completed
           (progress (last (snd (snd (research all_succeed empty_orchestrator ''what is rust'' False None))))))
        (stage_plan False)"
proof -
  have h: "stage_methods_keep_bookkeeping all_succeed"
    by (rule example_envs_keep_bookkeeping)
  have m: "last (snd (snd (research all_succeed empty_orchestrator ''what is rust'' False None)))
             \<in> set (snd (snd (research all_succeed empty_orchestrator ''what is rust'' False None)))"
    by (rule last_in_set) (rule research_states_nonempty)
  from bspec[OF stages_completed_prefix_of_stage_plan[OF h] m] h show ?thesis by simp
qed

text \<open>
  With verification disabled and every stage succeeding, the completed stages end up as
  query analysis, web search, reasoning, citation, output generation: not a prefix of the
  canonical order, which has \<^verbatim>\<open>verification\<close> in fourth place.
\<close>

theorem stages_completed_gap_without_verification:
  "stages_completed
     (progress (last (snd (snd (research all_succeed empty_orchestrator ''what is rust'' False None)))))
     = [QUERY_ANALYSIS, WEB_SEARCH, REASONING, CITATION, OUTPUT_GENERATION]
   \<and> \<not> prefix
         (stages_completed
            (progress (last (snd (snd (research all_succeed empty_orchestrator ''what is rust'' False None))))))
         [QUERY_ANALYSIS, WEB_SEARCH, REASONING, VERIFICATION, CITATION, OUTPUT_GENERATION]"
  by (simp add: last_state_without_verification)

subsection \<open>Session cleanup\<close>

text \<open>
  C5. After \<^verbatim>\<open>research\<close>, whether it returned the final result, returned the partial
  result after a failure, or let an exception of the failure handler through, the id of
  the session it created is not a key of \<^verbatim>\<open>active_sessions\<close>. The stage callables are
  taken not to reassign \<^verbatim>\<open>session.session_id\<close>, which the \<^verbatim>\<open>finally\<close> block reads.
\<close>

theorem research_removes_session_from_registry:
  assumes "stage_methods_keep_bookkeeping env"
  shows "session_id (fst (create_session (now env) q orch))
           \<notin> dom (active_sessions (fst (snd (research env orch q verify_claims progress_callback))))"
  unfolding research_orchestrator_after research_final_session_id[OF assms]
  by (simp add: cleanup_session_def create_session_def Let_def)

theorem research_removes_session_from_registry_witness:
  "stage_methods_keep_bookkeeping search_fails
   \<and> session_id (fst (create_session (now search_fails) ''what is rust'' empty_orchestrator))
       = ''session_1_20240101120000''
   \<and> ''session_1_20240101120000''
        \<notin> dom (active_sessions
                 (fst (snd (research search_fails empty_orchestrator ''what is rust'' True None))))"
proof -
  have h: "stage_methods_keep_bookkeeping search_fails"
    by (rule example_envs_keep_bookkeeping)
  have i: "session_id (fst (create_session (now search_fails) ''what is rust'' empty_orchestrator))
       = ''session_1_20240101120000''"
    by (simp add: create_session_def empty_orchestrator_def str_nat.simps search_fails_def
          all_succeed_def Let_def)
  from research_removes_session_from_registry[OF h, of "''what is rust''" empty_orchestrator True None] h i show ?thesis by simp
qed

subsection \<open>Progress percentage\<close>

text \<open>
  Over all the values the session takes, the percentage never decreases, and it is 100
  only when all six stages of the canonical order are completed.
\<close>

lemma progress_percentage_all_states:
  assumes "stage_methods_keep_bookkeeping env"
  shows "sorted (map (\<lambda>x. progress_percentage (progress x))
                  (snd (snd (research env orch q verify_claims progress_callback))))
       \<and> (\<forall>x\<in>set (snd (snd (research env orch q verify_claims progress_callback))).
             progress_percentage (progress x) = 100 \<longrightarrow>
               stages_completed (progress x) = canonical_order
               \<and> current_stage (progress x) \<in> {OUTPUT_GENERATION, COMPLETE})"
proof
  note inv = research_states_invariant[OF assms, of orch q verify_claims progress_callback]
  let ?T = "snd (snd (research env orch q verify_claims progress_callback))"
  have "sorted (map (\<lambda>n. real n / 6 * 100) (map (\<lambda>x. length (stages_completed (progress x))) ?T))"
    using inv by (intro sorted_map_mono) (auto simp add: mono_on_def)
  then show "sorted (map (\<lambda>x. progress_percentage (progress x)) ?T)"
    by (simp add: percentage_of_length comp_def)
  show "\<forall>x\<in>set ?T. progress_percentage (progress x) = 100 \<longrightarrow>
               stages_completed (progress x) = canonical_order
               \<and> current_stage (progress x) \<in> {OUTPUT_GENERATION, COMPLETE}"
  proof (intro ballI impI)
    fix x assume x: "x \<in> set ?T" and pct: "progress_percentage (progress x) = 100"
    from pct have l6: "length (stages_completed (progress x)) = 6"
      by (simp add: percentage_of_length)
    from inv x obtain k where k: "k \<le> length (stage_plan verify_claims)"
      "stages_completed (progress x) = take k (stage_plan verify_claims)"
      "k = length (stage_plan verify_claims) \<longrightarrow>
          current_stage (progress x) \<in> {OUTPUT_GENERATION, COMPLETE}" by blast
    from k(1,2) l6 have k6: "k = 6" by simp
    show "stages_completed (progress x) = canonical_order
               \<and> current_stage (progress x) \<in> {OUTPUT_GENERATION, COMPLETE}"
    proof (cases verify_claims)
      case True
      with k k6 show ?thesis by (simp add: stage_plan_values)
    next
      case False
      with k(1) k6 show ?thesis by (simp add: stage_plan_values)
    qed
  qed
qed










subsection \<open>The failure path\<close>

text \<open>
  When a stage raises and the model call of the error handler raises too, or returns a
  dict whose \<^verbatim>\<open>"fallback_content"\<close> is absent or a dict, \<^verbatim>\<open>research\<close> returns a result
  with status \<^verbatim>\<open>"failed"\<close>, confidence 0.2, the error message and \<^verbatim>\<open>partial = True\<close>.
\<close>

lemma handle_research_failure_usable:
  assumes "\<forall>request. usable_reply (cj request)"
  shows "\<exists>res. handle_research_failure cj s e = Inr res
           \<and> verification_status res = ''failed'' \<and> confidence res = 0.2
           \<and> ResearchResult.sources res = ResearchSession.sources s
           \<and> map_of (ResearchResult.metadata res) ''error'' = Some (JStr (exn_str e))
           \<and> map_of (ResearchResult.metadata res) ''partial'' = Some (JBool True)"
proof -
  let ?req = "\<lparr>fb_query = ResearchSession.query s, fb_available_info = synthesis s,
               fb_failed_sources = [exn_str e], fb_cached_data = None\<rparr>"
  from assms have u: "usable_reply (cj ?req)" by blast
  show ?thesis
  proof (cases "cj ?req")
    case (Inl err)
    then show ?thesis
      by (simp add: handle_research_failure_def generate_fallback_content_def)
  next
    case (Inr reply)
    with u obtain kvs where kvs: "reply = JDict kvs" by (cases reply) auto
    show ?thesis
    proof (cases "map_of kvs ''fallback_content''")
      case None
      with Inr kvs show ?thesis
        by (simp add: handle_research_failure_def generate_fallback_content_def)
    next
      case (Some v)
      with u Inr kvs obtain fc where "v = JDict fc" by (cases v) auto
      with Some Inr kvs show ?thesis
        by (simp add: handle_research_failure_def generate_fallback_content_def)
    qed
  qed
qed

lemma research_outcome_on_failure:
  assumes "fst (run_stages env verify_claims (fst (create_session (now env) q orch))) = Some e"
  shows "fst (research env orch q verify_claims progress_callback)
           = (case handle_research_failure (call_json env)
                     (last (snd (snd (research env orch q verify_claims progress_callback)))) e of
                Inl e' \<Rightarrow> Inl e'
              | Inr partial_result \<Rightarrow> Inr (Some partial_result))"
  using assms
  by (simp add: research_def and_then_def Let_def case_prod_beta split: option.splits)

lemma research_degraded_result:
  assumes "fst (run_stages env verify_claims (fst (create_session (now env) q orch))) = Some e"
      and "\<forall>request. usable_reply (call_json env request)"
  shows "\<exists>res. fst (research env orch q verify_claims progress_callback) = Inr (Some res)
           \<and> verification_status res = ''failed'' \<and> confidence res = 0.2
           \<and> map_of (ResearchResult.metadata res) ''error'' = Some (JStr (exn_str e))
           \<and> map_of (ResearchResult.metadata res) ''partial'' = Some (JBool True)"
  using handle_research_failure_usable[OF assms(2),
          of "last (snd (snd (research env orch q verify_claims progress_callback)))" e]
  unfolding research_outcome_on_failure[OF assms(1)]
  by auto

text \<open>
  C1 fails on other replies. The search stage raises; the error handler's model call
  returns \<^verbatim>\<open>{"fallback_content": "n/a"}\<close>; \<^verbatim>\<open>_handle_research_failure\<close> calls \<^verbatim>\<open>.get\<close> on
  the string and the \<^verbatim>\<open>AttributeError\<close> leaves \<^verbatim>\<open>research\<close>.
\<close>

theorem research_raises_on_malformed_fallback_reply:
  "fst (run_stages malformed_reply True
          (fst (create_session (now malformed_reply) ''what is rust'' empty_orchestrator)))
     = Some (Raised ''SearchError'' ''no network'')
   \<and> fst (research malformed_reply empty_orchestrator ''what is rust'' True None)
     = Inl (Raised ''AttributeError''
             ([CHR 0x27] @ ''str'' @ [CHR 0x27] @ '' object has no attribute ''
                @ [CHR 0x27] @ ''get'' @ [CHR 0x27]))"
  by (simp add: research_eval malformed_reply_def search_fails_def all_succeed_def)

end
